theory Spec2Isabelle
  imports Complex_Main "HOL-Library.Sublist" "HOL-Library.AList"
begin

chapter \<open>The embedding\<close>

text \<open>
  A shallow embedding of the server side of the code performance visualizer:
  the metrics aggregator (\<^verbatim>\<open>server/services/metricsService.js\<close>), the two language
  handlers (\<^verbatim>\<open>javascriptHandler.js\<close>, \<^verbatim>\<open>pythonHandler.js\<close>), the execution service and
  the heatmap of the client's \<^verbatim>\<open>visualizationService.js\<close>.

  Conventions. A JavaScript number is a \<^typ>\<open>real\<close> (durations, timestamps, memory) or a
  \<^typ>\<open>nat\<close> (a length, a line number); IEEE rounding is not modelled. A JavaScript
  string is a \<^typ>\<open>string\<close>, one character per code unit. A value that may be absent
  (\<^verbatim>\<open>undefined\<close>, \<^verbatim>\<open>null\<close>) is an \<^typ>\<open>'a option\<close>.
\<close>

section \<open>Trace events\<close>

text \<open>
  The four kinds of record the instrumented program collects and sends. Of a memory sample
  only the fields some modelled function reads are kept (\<^verbatim>\<open>heapTotal\<close>, \<^verbatim>\<open>rss\<close>, \<^verbatim>\<open>vms\<close> are
  written and never read).
\<close>

record memory_sample =
  mem_timestamp :: real
  mem_value :: real
  mem_allocation :: real
  mem_deallocation :: real

record function_call =
  fc_timestamp :: real
  fc_name :: string
  fc_caller :: "string option"
  fc_args :: "string list"
  fc_duration :: real
  fc_endTimestamp :: real

record variable_state =
  vs_timestamp :: real
  vs_name :: string
  vs_value :: string
  vs_type :: string
  vs_line :: nat

record flow_step =
  ef_timestamp :: real
  ef_line :: nat
  ef_code :: string
  ef_duration :: real

datatype trace_event =
  Memory memory_sample
| FunctionCall function_call
| VariableState variable_state
| ExecutionFlow flow_step

text \<open>
  The payload of the final \<^verbatim>\<open>complete\<close> message, which is also the \<^verbatim>\<open>metrics\<close> object the
  execution service fills and hands to \<^verbatim>\<open>metricsService.processMetrics\<close>.
\<close>

record raw_metrics =
  rm_executionTime :: real
  memoryUsage :: "memory_sample list"
  functionCalls :: "function_call list"
  variableStates :: "variable_state list"
  executionFlow :: "flow_step list"

record error_data =
  err_message :: string
  err_line :: "nat option"

text \<open>What the instrumented program sends to its host: an event, or one of the two markers.\<close>

datatype message =
  Event trace_event
| Complete raw_metrics
| Error error_data

record options =
  trackMemory :: bool
  trackVariables :: bool
  trackFunctions :: bool
  trackExecutionFlow :: bool

section \<open>javascriptHandler.js: the collector of the instrumented program\<close>

text \<open>
  White space as \<^verbatim>\<open>\s\<close> and \<^verbatim>\<open>String.prototype.trim\<close> read it, among the code units below 256:
  tab, line feed, vertical tab, form feed, carriage return, space, no-break space.
\<close>

definition is_space :: "char \<Rightarrow> bool" where
  "is_space c = (c \<in> set [CHR 0x09, CHR 0x0A, CHR 0x0B, CHR 0x0C, CHR 0x0D, CHR 0x20, CHR 0xA0])"

definition trim :: "string \<Rightarrow> string" where
  "trim s = rev (dropWhile is_space (rev (dropWhile is_space s)))"

text \<open>
  A value of the user's program, as far as the collector looks at it: what
  \<^verbatim>\<open>JSON.stringify\<close> (\<^verbatim>\<open>json.dumps\<close>) makes of it, \<open>None\<close> when it throws or returns
  \<^verbatim>\<open>undefined\<close> (on which \<^verbatim>\<open>.substring\<close> throws), and its \<^verbatim>\<open>typeof\<close>.
\<close>

record traced_value =
  stringified :: "string option"
  type_of :: string

text \<open>
  \<^verbatim>\<open>try { return JSON.stringify(arg).substring(0, 100); } catch (e) { return '[Complex object]'; }\<close>
\<close>

definition js_arg_summary :: "traced_value \<Rightarrow> string" where
  "js_arg_summary arg =
     (case stringified arg of
        None \<Rightarrow> ''[Complex object]''
      | Some s \<Rightarrow> take 100 s)"

text \<open>
  \<^verbatim>\<open>serializedValue = JSON.stringify(value).substring(0, 100);
  if (serializedValue.length === 100) serializedValue += '...';\<close>
  with \<^verbatim>\<open>'[Complex object]'\<close> in the \<^verbatim>\<open>catch\<close>.
\<close>

definition js_value_summary :: "traced_value \<Rightarrow> string" where
  "js_value_summary v =
     (case stringified v of
        None \<Rightarrow> ''[Complex object]''
      | Some s \<Rightarrow>
          (let serializedValue = take 100 s
           in if length serializedValue = 100 then serializedValue @ ''...''
              else serializedValue))"

text \<open>
  The state of \<^verbatim>\<open>__metrics\<close>, with the messages passed to \<^verbatim>\<open>process.send\<close> so far. Every
  reading of \<^verbatim>\<open>Date.now()\<close> and of \<^verbatim>\<open>process.memoryUsage().heapUsed\<close> is an argument of the
  function that takes it.
\<close>

record collector =
  js_memoryUsage :: "memory_sample list"
  js_functionCalls :: "function_call list"
  js_variableStates :: "variable_state list"
  js_executionFlow :: "flow_step list"
  startTime :: real
  sent :: "message list"

definition collector_init :: "real \<Rightarrow> collector" where
  "collector_init now =
     \<lparr>js_memoryUsage = [], js_functionCalls = [], js_variableStates = [],
      js_executionFlow = [], startTime = now, sent = []\<rparr>"

definition js_trackMemory ::
  "options \<Rightarrow> real \<Rightarrow> real \<Rightarrow> real \<Rightarrow> real \<Rightarrow> collector \<Rightarrow> collector" where
  "js_trackMemory opts now heapUsed allocation deallocation st =
     (if trackMemory opts then
        (let sample = \<lparr>mem_timestamp = now - startTime st, mem_value = heapUsed,
               mem_allocation = allocation, mem_deallocation = deallocation\<rparr>
         in st\<lparr>js_memoryUsage := js_memoryUsage st @ [sample],
                sent := sent st @ [Event (Memory sample)]\<rparr>)
      else st)"

definition js_callData ::
  "real \<Rightarrow> string \<Rightarrow> string option \<Rightarrow> traced_value list \<Rightarrow> real \<Rightarrow> real \<Rightarrow> function_call" where
  "js_callData start name caller args startT endT =
     \<lparr>fc_timestamp = startT - start, fc_name = name, fc_caller = caller,
      fc_args = map js_arg_summary args, fc_duration = endT - startT,
      fc_endTimestamp = endT - start\<rparr>"

text \<open>\<^verbatim>\<open>trackFunctionCall\<close> returns the duration in both branches.\<close>

definition js_trackFunctionCall ::
  "options \<Rightarrow> string \<Rightarrow> string option \<Rightarrow> traced_value list \<Rightarrow> real \<Rightarrow> real \<Rightarrow> collector
     \<Rightarrow> real \<times> collector" where
  "js_trackFunctionCall opts name caller args startT endT st =
     (if trackFunctions opts then
        (let callData = js_callData (startTime st) name caller args startT endT
         in (endT - startT,
             st\<lparr>js_functionCalls := js_functionCalls st @ [callData],
                sent := sent st @ [Event (FunctionCall callData)]\<rparr>))
      else (endT - startT, st))"

text \<open>\<^verbatim>\<open>type: varType || typeof value\<close>: an absent or empty \<^verbatim>\<open>varType\<close> is falsy.\<close>

definition js_varData ::
  "real \<Rightarrow> real \<Rightarrow> string \<Rightarrow> traced_value \<Rightarrow> nat \<Rightarrow> string option \<Rightarrow> variable_state" where
  "js_varData start now name v line varType =
     \<lparr>vs_timestamp = now - start, vs_name = name, vs_value = js_value_summary v,
      vs_type = (case varType of
                   None \<Rightarrow> type_of v
                 | Some t \<Rightarrow> if t = [] then type_of v else t),
      vs_line = line\<rparr>"

definition js_trackVariable ::
  "options \<Rightarrow> real \<Rightarrow> string \<Rightarrow> traced_value \<Rightarrow> nat \<Rightarrow> string option \<Rightarrow> collector \<Rightarrow> collector" where
  "js_trackVariable opts now name v line varType st =
     (if trackVariables opts then
        (let varData = js_varData (startTime st) now name v line varType
         in st\<lparr>js_variableStates := js_variableStates st @ [varData],
                sent := sent st @ [Event (VariableState varData)]\<rparr>)
      else st)"

text \<open>
  \<^verbatim>\<open>trackExecution(line, code)\<close> reads the clock and returns a tracker; the tracker's
  \<^verbatim>\<open>end()\<close> reads it again and records the step. The model is the pair of both calls.
\<close>

definition js_trackExecution ::
  "options \<Rightarrow> real \<Rightarrow> real \<Rightarrow> nat \<Rightarrow> string \<Rightarrow> collector \<Rightarrow> collector" where
  "js_trackExecution opts startT endT line code st =
     (if trackExecutionFlow opts then
        (let executionData = \<lparr>ef_timestamp = startT - startTime st, ef_line = line,
               ef_code = trim code, ef_duration = endT - startT\<rparr>
         in st\<lparr>js_executionFlow := js_executionFlow st @ [executionData],
                sent := sent st @ [Event (ExecutionFlow executionData)]\<rparr>)
      else st)"

text \<open>
  The instrumented program (\<^verbatim>\<open>instrumentCode\<close>, the two template strings around the user's
  code):

  \<^verbatim>\<open>const __metrics = {..., startTime: Date.now(), ...};
  __metrics.trackMemory();
  try {
    <the user's code, with the injected calls>
    __metrics.trackMemory();
    process.send({ event: 'complete', data: {...} });
  } catch (error) {
    process.send({ event: 'error', data: {...} });
  }\<close>

  The user's code is modelled by what it does to the collector: the injected calls it
  makes, in order, and whether it runs to its end or throws. Calls the user's own text
  makes to \<^verbatim>\<open>process.send\<close>, and a program that does not parse or does not stop, are outside
  this model.
\<close>

datatype js_hook =
  TrackVariable real string traced_value nat "string option"
| TrackFunctionCall string "string option" "traced_value list" real real
| TrackExecution real real nat string

fun js_hook_run :: "options \<Rightarrow> js_hook \<Rightarrow> collector \<Rightarrow> collector" where
  "js_hook_run opts (TrackVariable now name v line varType) st =
     js_trackVariable opts now name v line varType st"
| "js_hook_run opts (TrackFunctionCall name caller args startT endT) st =
     snd (js_trackFunctionCall opts name caller args startT endT st)"
| "js_hook_run opts (TrackExecution startT endT line code) st =
     js_trackExecution opts startT endT line code st"

text \<open>How the user's code leaves the \<^verbatim>\<open>try\<close> block: \<^verbatim>\<open>error.message\<close> and \<^verbatim>\<open>error.lineNumber\<close>.\<close>

datatype js_outcome = Completes | Throws string "nat option"

text \<open>The readings the two templates take of the clock and of the heap.\<close>

record js_readings =
  t_start :: real
  t_first_sample :: real
  heap_first_sample :: real
  t_last_sample :: real
  heap_last_sample :: real
  t_complete :: real

text \<open>The state when the user's code has run: initial sample, then the injected calls.\<close>

definition js_user_code_done :: "options \<Rightarrow> js_readings \<Rightarrow> js_hook list \<Rightarrow> collector" where
  "js_user_code_done opts r hooks =
     fold (js_hook_run opts) hooks
       (js_trackMemory opts (t_first_sample r) (heap_first_sample r) 0 0
          (collector_init (t_start r)))"

definition js_complete_data :: "real \<Rightarrow> collector \<Rightarrow> raw_metrics" where
  "js_complete_data now st =
     \<lparr>rm_executionTime = now - startTime st, memoryUsage = js_memoryUsage st,
      functionCalls = js_functionCalls st, variableStates = js_variableStates st,
      executionFlow = js_executionFlow st\<rparr>"

definition js_instrumented_program ::
  "options \<Rightarrow> js_readings \<Rightarrow> js_hook list \<Rightarrow> js_outcome \<Rightarrow> collector" where
  "js_instrumented_program opts r hooks outcome =
     (let st = js_user_code_done opts r hooks in
      case outcome of
        Completes \<Rightarrow>
          (let st' = js_trackMemory opts (t_last_sample r) (heap_last_sample r) 0 0 st
           in st'\<lparr>sent := sent st' @ [Complete (js_complete_data (t_complete r) st')]\<rparr>)
      | Throws msg line \<Rightarrow>
          st\<lparr>sent := sent st @ [Error \<lparr>err_message = msg, err_line = line\<rparr>]\<rparr>)"

section \<open>javascriptHandler.js: instrumentVariables\<close>

text \<open>
  \<^verbatim>\<open>instrumentVariables\<close> rewrites the text of the program with four calls of
  \<^verbatim>\<open>code.replace(regex, callback)\<close>, each regex with the flag \<^verbatim>\<open>g\<close>. The character classes
  \<^verbatim>\<open>[a-zA-Z_$]\<close> and \<^verbatim>\<open>[a-zA-Z0-9_$]\<close>:
\<close>

definition ident_start :: "char \<Rightarrow> bool" where
  "ident_start c =
     ((97 \<le> (of_char c :: nat) \<and> (of_char c :: nat) \<le> 122)
      \<or> (65 \<le> (of_char c :: nat) \<and> (of_char c :: nat) \<le> 90)
      \<or> c = CHR ''_'' \<or> c = CHR ''$'')"

definition ident_char :: "char \<Rightarrow> bool" where
  "ident_char c = (ident_start c \<or> (48 \<le> (of_char c :: nat) \<and> (of_char c :: nat) \<le> 57))"

text \<open>
  A match of \<^verbatim>\<open>([a-zA-Z_$][a-zA-Z0-9_$]*)\s*=\s*([^;]*);\<close> at the start of a text: the name,
  the value and the length of the match. The quantifiers are greedy, and no shorter choice
  can succeed where the longest fails: after a shorter name comes a name character, after
  a shorter run of white space a white space, neither of them \<^verbatim>\<open>=\<close>; and \<^verbatim>\<open>[^;]*\<close> stops at
  the first \<^verbatim>\<open>;\<close> or at the end of the text, where the match fails.
\<close>

definition match_assignment :: "string \<Rightarrow> (string \<times> string \<times> nat) option" where
  "match_assignment s =
     (case s of
        [] \<Rightarrow> None
      | c # cs \<Rightarrow>
          if \<not> ident_start c then None
          else
            (case dropWhile is_space (dropWhile ident_char cs) of
               [] \<Rightarrow> None
             | e # r \<Rightarrow>
                 if e \<noteq> CHR ''='' then None
                 else
                   (case dropWhile (\<lambda>x. x \<noteq> CHR '';'') (dropWhile is_space r) of
                      [] \<Rightarrow> None
                    | semicolon # rest \<Rightarrow>
                        Some (c # takeWhile ident_char cs,
                              takeWhile (\<lambda>x. x \<noteq> CHR '';'') (dropWhile is_space r),
                              length s - length rest))))"

text \<open>
  A match of \<^verbatim>\<open>let\s+([a-zA-Z_$][a-zA-Z0-9_$]*)\s*=\s*([^;]*);\<close> (and of the same with
  \<^verbatim>\<open>const\<close>, \<^verbatim>\<open>var\<close>) at the start of a text: the keyword, at least one white space, and
  an assignment.
\<close>

definition match_declaration :: "string \<Rightarrow> string \<Rightarrow> (string \<times> string \<times> nat) option" where
  "match_declaration keyword s =
     (if \<not> prefix keyword s then None
      else
        (let r = drop (length keyword) s;
             r' = dropWhile is_space r
         in if length r' = length r then None
            else (case match_assignment r' of
                    None \<Rightarrow> None
                  | Some (name, v, n) \<Rightarrow> Some (name, v, length s - length r' + n))))"

text \<open>
  What a callback returns: the match itself, or the assignment followed by a call of
  \<^verbatim>\<open>__metrics.trackVariable\<close> for the name (with the kind of declaration, if any).
\<close>

datatype replacement =
  Unchanged string
| Tracked "string option" string string

definition declaration_callback :: "string \<Rightarrow> string \<Rightarrow> string \<Rightarrow> string \<Rightarrow> replacement" where
  "declaration_callback keyword whole name v = Tracked (Some keyword) name v"

text \<open>
  \<^verbatim>\<open>if (name === 'i' || name === 'j' || name === 'k') { return match; }\<close>
\<close>

definition reassignment_callback :: "string \<Rightarrow> string \<Rightarrow> string \<Rightarrow> replacement" where
  "reassignment_callback whole name v =
     (if name = ''i'' \<or> name = ''j'' \<or> name = ''k'' then Unchanged whole
      else Tracked None name v)"

text \<open>The text of a replacement, character for character as the template strings give it.\<close>

definition track_call :: "string \<Rightarrow> string option \<Rightarrow> string" where
  "track_call name kind =
     ''__metrics.trackVariable('' @ [CHR 0x22] @ name @ [CHR 0x22] @ '', '' @ name
     @ '', new Error().stack.split('' @ [CHR 0x22, CHR 0x5C] @ ''n'' @ [CHR 0x22]
     @ '')[1].match(/:([0-9]+):/)?.[1] || 0''
     @ (case kind of None \<Rightarrow> [] | Some k \<Rightarrow> '', '' @ [CHR 0x22] @ k @ [CHR 0x22])
     @ '');''"

fun render_replacement :: "replacement \<Rightarrow> string" where
  "render_replacement (Unchanged whole) = whole"
| "render_replacement (Tracked kind name v) =
     (case kind of None \<Rightarrow> [] | Some k \<Rightarrow> k @ '' '')
     @ name @ '' = '' @ v @ ''; '' @ [CHR 0x0A] @ replicate 8 CHR '' ''
     @ track_call name kind"

text \<open>
  \<^verbatim>\<open>replace\<close> with a global regex goes through the text from the left: where the regex
  matches, the callback's result stands for the match and the search goes on behind it;
  a character where it does not match is copied. The number counts the characters of the
  last match that are still to be passed.
\<close>

datatype segment = Copied char | Replaced replacement

fun replace_scan ::
  "(string \<Rightarrow> (string \<times> string \<times> nat) option) \<Rightarrow> (string \<Rightarrow> string \<Rightarrow> string \<Rightarrow> replacement)
     \<Rightarrow> nat \<Rightarrow> string \<Rightarrow> segment list" where
  "replace_scan matcher callback inside [] = []"
| "replace_scan matcher callback (Suc inside) (c # cs) = replace_scan matcher callback inside cs"
| "replace_scan matcher callback 0 (c # cs) =
     (case matcher (c # cs) of
        None \<Rightarrow> Copied c # replace_scan matcher callback 0 cs
      | Some (name, v, n) \<Rightarrow>
          Replaced (callback (take n (c # cs)) name v) # replace_scan matcher callback (n - 1) cs)"

fun render_segment :: "segment \<Rightarrow> string" where
  "render_segment (Copied c) = [c]"
| "render_segment (Replaced r) = render_replacement r"

definition replace_all ::
  "(string \<Rightarrow> (string \<times> string \<times> nat) option) \<Rightarrow> (string \<Rightarrow> string \<Rightarrow> string \<Rightarrow> replacement)
     \<Rightarrow> string \<Rightarrow> string" where
  "replace_all matcher callback code = concat (map render_segment (replace_scan matcher callback 0 code))"

text \<open>The fourth rewrite, of plain reassignments, by its segments.\<close>

definition reassignment_segments :: "string \<Rightarrow> segment list" where
  "reassignment_segments code = replace_scan match_assignment reassignment_callback 0 code"

definition instrumentVariables :: "string \<Rightarrow> bool \<Rightarrow> string" where
  "instrumentVariables code track =
     (if \<not> track then code
      else
        (let code1 = replace_all (match_declaration ''let'') (declaration_callback ''let'') code;
             code2 = replace_all (match_declaration ''const'') (declaration_callback ''const'') code1;
             code3 = replace_all (match_declaration ''var'') (declaration_callback ''var'') code2
         in concat (map render_segment (reassignment_segments code3))))"

text \<open>The names for which a list of segments carries an injected call.\<close>

fun tracked_names :: "segment list \<Rightarrow> string list" where
  "tracked_names [] = []"
| "tracked_names (Replaced (Tracked kind name v) # segs) = name # tracked_names segs"
| "tracked_names (seg # segs) = tracked_names segs"

section \<open>pythonHandler.js: the collector of the instrumented program\<close>

text \<open>
  \<^verbatim>\<open>MetricsCollector\<close> has the fields of \<^verbatim>\<open>__metrics\<close> in snake case and is modelled by the
  same record; a line printed with one of the prefixes \<^verbatim>\<open>__METRICS_EVENT__\<close>,
  \<^verbatim>\<open>__METRICS_COMPLETE__\<close>, \<^verbatim>\<open>__METRICS_ERROR__\<close> is the \<open>Event\<close>, \<open>Complete\<close> or \<open>Error\<close>
  message. \<^verbatim>\<open>track_execution\<close> is left out: nothing calls it.
\<close>

text \<open>\<^verbatim>\<open>arg_str = json.dumps(arg)[:100]\<close>, and \<^verbatim>\<open>'[Complex object]'\<close> in the \<^verbatim>\<open>except\<close>.\<close>

definition py_arg_summary :: "traced_value \<Rightarrow> string" where
  "py_arg_summary arg =
     (case stringified arg of
        None \<Rightarrow> ''[Complex object]''
      | Some s \<Rightarrow> take 100 s)"

text \<open>
  \<^verbatim>\<open>value_str = json.dumps(value)[:100]
  if len(value_str) == 100: value_str += '...'\<close>
\<close>

definition py_value_summary :: "traced_value \<Rightarrow> string" where
  "py_value_summary v =
     (case stringified v of
        None \<Rightarrow> ''[Complex object]''
      | Some s \<Rightarrow>
          (let value_str = take 100 s
           in if length value_str = 100 then value_str @ ''...'' else value_str))"

definition py_track_memory ::
  "options \<Rightarrow> real \<Rightarrow> real \<Rightarrow> real \<Rightarrow> real \<Rightarrow> collector \<Rightarrow> collector" where
  "py_track_memory opts now rss allocation deallocation st =
     (if trackMemory opts then
        (let memory_data = \<lparr>mem_timestamp = now - startTime st, mem_value = rss,
               mem_allocation = allocation, mem_deallocation = deallocation\<rparr>
         in st\<lparr>js_memoryUsage := js_memoryUsage st @ [memory_data],
                sent := sent st @ [Event (Memory memory_data)]\<rparr>)
      else st)"

definition py_call_data ::
  "real \<Rightarrow> string \<Rightarrow> string option \<Rightarrow> traced_value list \<Rightarrow> real \<Rightarrow> real \<Rightarrow> function_call" where
  "py_call_data start name caller args start_time end_time =
     \<lparr>fc_timestamp = start_time - start, fc_name = name, fc_caller = caller,
      fc_args = map py_arg_summary args, fc_duration = end_time - start_time,
      fc_endTimestamp = end_time - start\<rparr>"

definition py_track_function_call ::
  "options \<Rightarrow> string \<Rightarrow> string option \<Rightarrow> traced_value list \<Rightarrow> real \<Rightarrow> real \<Rightarrow> collector
     \<Rightarrow> real \<times> collector" where
  "py_track_function_call opts name caller args start_time end_time st =
     (if trackFunctions opts then
        (let call_data = py_call_data (startTime st) name caller args start_time end_time
         in (end_time - start_time,
             st\<lparr>js_functionCalls := js_functionCalls st @ [call_data],
                sent := sent st @ [Event (FunctionCall call_data)]\<rparr>))
      else (end_time - start_time, st))"

text \<open>\<^verbatim>\<open>'type': var_type or type(value).__name__\<close>\<close>

definition py_var_data ::
  "real \<Rightarrow> real \<Rightarrow> string \<Rightarrow> traced_value \<Rightarrow> nat \<Rightarrow> string option \<Rightarrow> variable_state" where
  "py_var_data start now name v line var_type =
     \<lparr>vs_timestamp = now - start, vs_name = name, vs_value = py_value_summary v,
      vs_type = (case var_type of
                   None \<Rightarrow> type_of v
                 | Some t \<Rightarrow> if t = [] then type_of v else t),
      vs_line = line\<rparr>"

definition py_track_variable ::
  "options \<Rightarrow> real \<Rightarrow> string \<Rightarrow> traced_value \<Rightarrow> nat \<Rightarrow> string option \<Rightarrow> collector \<Rightarrow> collector" where
  "py_track_variable opts now name v line var_type st =
     (if trackVariables opts then
        (let var_data = py_var_data (startTime st) now name v line var_type
         in st\<lparr>js_variableStates := js_variableStates st @ [var_data],
                sent := sent st @ [Event (VariableState var_data)]\<rparr>)
      else st)"

text \<open>
  The instrumented program:

  \<^verbatim>\<open>metrics = MetricsCollector()
  metrics.track_memory()
  try:
      <the user's code, @track_function on every def>
      metrics.track_memory()
      print("__METRICS_COMPLETE__" + json.dumps({...}))
  except Exception as e:
      print("__METRICS_ERROR__" + json.dumps(error_data))\<close>

  The only injected call is the decorator's \<^verbatim>\<open>track_function_call\<close>. An exception that is
  not an instance of \<^verbatim>\<open>Exception\<close> (\<^verbatim>\<open>SystemExit\<close>, \<^verbatim>\<open>KeyboardInterrupt\<close>) passes the
  \<^verbatim>\<open>except\<close> clause.
\<close>

datatype py_hook =
  PyTrackFunctionCall string "string option" "traced_value list" real real

fun py_hook_run :: "options \<Rightarrow> py_hook \<Rightarrow> collector \<Rightarrow> collector" where
  "py_hook_run opts (PyTrackFunctionCall name caller args start_time end_time) st =
     snd (py_track_function_call opts name caller args start_time end_time st)"

datatype py_outcome =
  PyCompletes
| PyRaisesException string "nat option"
| PyRaisesBaseException

record py_readings =
  py_t_start :: real
  py_t_first_sample :: real
  rss_first_sample :: real
  py_t_last_sample :: real
  rss_last_sample :: real
  py_t_complete :: real

definition py_user_code_done :: "options \<Rightarrow> py_readings \<Rightarrow> py_hook list \<Rightarrow> collector" where
  "py_user_code_done opts r hooks =
     fold (py_hook_run opts) hooks
       (py_track_memory opts (py_t_first_sample r) (rss_first_sample r) 0 0
          (collector_init (py_t_start r)))"

definition py_instrumented_program ::
  "options \<Rightarrow> py_readings \<Rightarrow> py_hook list \<Rightarrow> py_outcome \<Rightarrow> collector" where
  "py_instrumented_program opts r hooks outcome =
     (let st = py_user_code_done opts r hooks in
      case outcome of
        PyCompletes \<Rightarrow>
          (let st' = py_track_memory opts (py_t_last_sample r) (rss_last_sample r) 0 0 st
           in st'\<lparr>sent := sent st' @ [Complete (js_complete_data (py_t_complete r) st')]\<rparr>)
      | PyRaisesException msg line \<Rightarrow>
          st\<lparr>sent := sent st @ [Error \<lparr>err_message = msg, err_line = line\<rparr>]\<rparr>
      | PyRaisesBaseException \<Rightarrow> st)"

text \<open>The two markers among the messages.\<close>

fun is_marker :: "message \<Rightarrow> bool" where
  "is_marker (Complete _) = True"
| "is_marker (Error _) = True"
| "is_marker (Event _) = False"

section \<open>pythonHandler.js: executeCode, the reader of the program's output\<close>

text \<open>
  A value \<^verbatim>\<open>JSON.parse\<close> returns. An object is the list of its properties.
\<close>

datatype json =
  JNull
| JBool bool
| JNum real
| JStr string
| JArr "json list"
| JObj "(string \<times> json) list"

text \<open>
  \<^verbatim>\<open>JSON.parse\<close> is the library's: a line of output comes with what \<^verbatim>\<open>JSON.parse\<close> does on
  the text behind its prefix, which is to throw a \<^verbatim>\<open>SyntaxError\<close> (with its message) or to
  return a value.
\<close>

datatype parse_result = SyntaxError string | Parsed json

record output_line =
  line_text :: string
  payload_parse :: parse_result

text \<open>
  Reading a property \<^verbatim>\<open>v.name\<close> of a parsed value throws a \<^verbatim>\<open>TypeError\<close> on \<^verbatim>\<open>null\<close>; an
  object gives the property or \<^verbatim>\<open>undefined\<close>, any other value \<^verbatim>\<open>undefined\<close> (for the
  names read here: \<^verbatim>\<open>event\<close>, \<^verbatim>\<open>data\<close>, \<^verbatim>\<open>message\<close>).
\<close>

datatype js_exception = TypeError

definition get_property :: "json \<Rightarrow> string \<Rightarrow> js_exception + json option" where
  "get_property v name =
     (case v of
        JNull \<Rightarrow> Inl TypeError
      | JObj props \<Rightarrow> Inr (map_of props name)
      | _ \<Rightarrow> Inr None)"

fun truthy :: "json option \<Rightarrow> bool" where
  "truthy None = False"
| "truthy (Some JNull) = False"
| "truthy (Some (JBool b)) = b"
| "truthy (Some (JNum n)) = (n \<noteq> 0)"
| "truthy (Some (JStr s)) = (s \<noteq> [])"
| "truthy (Some (JArr xs)) = True"
| "truthy (Some (JObj props)) = True"

text \<open>
  The promise \<^verbatim>\<open>executeCode\<close> returns settles once: a later \<^verbatim>\<open>resolve\<close> or \<^verbatim>\<open>reject\<close> does
  nothing.
\<close>

datatype promise = Pending | Resolved json | Rejected string

definition settle :: "promise \<Rightarrow> promise \<Rightarrow> promise" where
  "settle new current = (case current of Pending \<Rightarrow> new | _ \<Rightarrow> current)"

text \<open>
  The state of one call of \<^verbatim>\<open>executeCode\<close>: the variable \<^verbatim>\<open>metricsData\<close>, the calls of
  \<^verbatim>\<open>metricsCallback\<close> (event name and data; \<open>None\<close> for \<^verbatim>\<open>undefined\<close> or an object made by
  the handler itself), the first arguments of \<^verbatim>\<open>console.error\<close>, whether the timeout is
  armed, whether the temporary file is there, and the promise.
\<close>

record py_run =
  metricsData :: json
  delivered :: "(json option \<times> json option) list"
  console :: "string list"
  timer_armed :: bool
  temp_file :: bool
  result :: promise

definition py_run_init :: py_run where
  "py_run_init =
     \<lparr>metricsData = JObj [(''memoryUsage'', JArr []), (''functionCalls'', JArr []),
                          (''variableStates'', JArr []), (''executionFlow'', JArr [])],
      delivered = [], console = [], timer_armed = True, temp_file = True, result = Pending\<rparr>"

text \<open>
  \<^verbatim>\<open>try { fs.unlinkSync(tempFile); } catch (err) { console.error('Error removing temp file:', err); }\<close>
\<close>

definition remove_temp_file :: "py_run \<Rightarrow> py_run" where
  "remove_temp_file st =
     (if temp_file st then st\<lparr>temp_file := False\<rparr>
      else st\<lparr>console := console st @ [''Error removing temp file:'']\<rparr>)"

text \<open>The branch for a line that starts with \<^verbatim>\<open>__METRICS_EVENT__\<close>.\<close>

definition on_event_line :: "bool \<Rightarrow> parse_result \<Rightarrow> py_run \<Rightarrow> py_run" where
  "on_event_line has_callback parsed st =
     (case parsed of
        SyntaxError e \<Rightarrow> st\<lparr>console := console st @ [''Error parsing metrics event:'']\<rparr>
      | Parsed eventData \<Rightarrow>
          if \<not> has_callback then st
          else
            (case get_property eventData ''event'' of
               Inl TypeError \<Rightarrow> st\<lparr>console := console st @ [''Error parsing metrics event:'']\<rparr>
             | Inr ev \<Rightarrow>
                 if \<not> truthy ev then st
                 else
                   (case get_property eventData ''data'' of
                      Inl TypeError \<Rightarrow>
                        st\<lparr>console := console st @ [''Error parsing metrics event:'']\<rparr>
                    | Inr d \<Rightarrow>
                        if truthy d then st\<lparr>delivered := delivered st @ [(ev, d)]\<rparr>
                        else st)))"

text \<open>The branch for a line that starts with \<^verbatim>\<open>__METRICS_COMPLETE__\<close>.\<close>

definition on_complete_line :: "parse_result \<Rightarrow> py_run \<Rightarrow> py_run" where
  "on_complete_line parsed st =
     (case parsed of
        SyntaxError e \<Rightarrow> st\<lparr>console := console st @ [''Error parsing final metrics:'']\<rparr>
      | Parsed v \<Rightarrow> st\<lparr>metricsData := v\<rparr>)"

text \<open>
  The branch for a line that starts with \<^verbatim>\<open>__METRICS_ERROR__\<close>. \<^verbatim>\<open>new Error(errorData.message)\<close>
  has the message as a string, empty for \<^verbatim>\<open>undefined\<close>; the model keeps the text of a string
  message and writes any other as the empty string. The \<^verbatim>\<open>catch\<close> rejects with the error it
  caught.
\<close>

definition error_message_text :: "json option \<Rightarrow> string" where
  "error_message_text m = (case m of Some (JStr s) \<Rightarrow> s | _ \<Rightarrow> [])"

definition on_error_line :: "bool \<Rightarrow> parse_result \<Rightarrow> py_run \<Rightarrow> py_run" where
  "on_error_line has_callback parsed st =
     (case parsed of
        SyntaxError e \<Rightarrow>
          st\<lparr>console := console st @ [''Error parsing error data:''],
             result := settle (Rejected e) (result st)\<rparr>
      | Parsed errorData \<Rightarrow>
          (let st1 = (if has_callback
                      then st\<lparr>delivered := delivered st @ [(Some (JStr ''error''), Some errorData)]\<rparr>
                      else st);
               st2 = remove_temp_file (st1\<lparr>timer_armed := False\<rparr>)
           in case get_property errorData ''message'' of
                Inl TypeError \<Rightarrow>
                  st2\<lparr>console := console st2 @ [''Error parsing error data:''],
                      result := settle (Rejected ''TypeError'') (result st2)\<rparr>
              | Inr m \<Rightarrow> st2\<lparr>result := settle (Rejected (error_message_text m)) (result st2)\<rparr>))"

text \<open>\<^verbatim>\<open>pyShell.on('message', ...)\<close>: the prefixes are tried in this order.\<close>

definition on_message :: "bool \<Rightarrow> output_line \<Rightarrow> py_run \<Rightarrow> py_run" where
  "on_message has_callback l st =
     (if prefix ''__METRICS_EVENT__'' (line_text l) then
        on_event_line has_callback (payload_parse l) st
      else if prefix ''__METRICS_COMPLETE__'' (line_text l) then
        on_complete_line (payload_parse l) st
      else if prefix ''__METRICS_ERROR__'' (line_text l) then
        on_error_line has_callback (payload_parse l) st
      else st)"

text \<open>
  \<^verbatim>\<open>pyShell.end((err, exitCode, exitSignal) => ...)\<close>, with the message of \<^verbatim>\<open>err\<close> if there is
  one.
\<close>

definition on_end :: "bool \<Rightarrow> string option \<Rightarrow> py_run \<Rightarrow> py_run" where
  "on_end has_callback err st =
     (let st1 = remove_temp_file (st\<lparr>timer_armed := False\<rparr>)
      in case err of
           Some msg \<Rightarrow>
             (let st2 = (if has_callback
                         then st1\<lparr>delivered := delivered st1 @ [(Some (JStr ''error''), None)]\<rparr>
                         else st1)
              in st2\<lparr>result := settle (Rejected msg) (result st2)\<rparr>)
         | None \<Rightarrow> st1\<lparr>result := settle (Resolved (metricsData st1)) (result st1)\<rparr>)"

text \<open>A run without timeout: the lines of output in order, then the end of the process.\<close>

definition py_execute :: "bool \<Rightarrow> output_line list \<Rightarrow> string option \<Rightarrow> py_run" where
  "py_execute has_callback ls err = on_end has_callback err (fold (on_message has_callback) ls py_run_init)"

section \<open>codeExecutionService.js: executeCode\<close>














section \<open>JavaScript containers\<close>

text \<open>
  A \<^verbatim>\<open>Set\<close> is the list of its members in insertion order; \<^verbatim>\<open>add\<close> of a member changes
  nothing.
\<close>

definition set_add :: "'a \<Rightarrow> 'a list \<Rightarrow> 'a list" where
  "set_add x xs = (if x \<in> set xs then xs else xs @ [x])"

definition new_Set :: "'a list \<Rightarrow> 'a list" where
  "new_Set xs = fold set_add xs []"

text \<open>
  A \<^verbatim>\<open>Map\<close>, and the own properties of a plain object, are association lists in creation
  order: \<open>map_of\<close> reads, \<open>AList.update\<close> writes (in place for a key that is there, at the
  end for a new one).

  A plain object \<^verbatim>\<open>{}\<close> differs from a \<^verbatim>\<open>Map\<close> in two ways that the aggregator meets.
  First, reading a property that the object does not own finds the property of that name
  of \<^verbatim>\<open>Object.prototype\<close>, when there is one; writing \<^verbatim>\<open>__proto__\<close> with a value that is not
  an object changes nothing. Second, \<^verbatim>\<open>Object.entries\<close> and \<^verbatim>\<open>Object.values\<close> list the
  properties whose name is an array index (the decimal numeral, without leading zeros, of
  a number below \<open>2^32 - 1\<close>) first, in ascending numeric order, and the others after them
  in creation order.
\<close>

definition object_prototype_names :: "string list" where
  "object_prototype_names =
     [''constructor'', ''__defineGetter__'', ''__defineSetter__'', ''hasOwnProperty'',
      ''__lookupGetter__'', ''__lookupSetter__'', ''isPrototypeOf'', ''propertyIsEnumerable'',
      ''toString'', ''valueOf'', ''__proto__'', ''toLocaleString'']"

datatype 'v js_read = Undefined | Own 'v | Inherited

definition read_prop :: "(string \<times> 'v) list \<Rightarrow> string \<Rightarrow> 'v js_read" where
  "read_prop obj k =
     (case map_of obj k of
        Some v \<Rightarrow> Own v
      | None \<Rightarrow> if k \<in> set object_prototype_names then Inherited else Undefined)"

definition write_prop :: "string \<Rightarrow> 'v \<Rightarrow> (string \<times> 'v) list \<Rightarrow> (string \<times> 'v) list" where
  "write_prop k v obj = (if k = ''__proto__'' then obj else AList.update k v obj)"

definition is_digit :: "char \<Rightarrow> bool" where
  "is_digit c = (c \<in> set ''0123456789'')"

definition decimal_value :: "string \<Rightarrow> nat" where
  "decimal_value s = foldl (\<lambda>n c. 10 * n + (of_char c - 48)) 0 s"

definition is_array_index_key :: "string \<Rightarrow> bool" where
  "is_array_index_key s =
     (s \<noteq> [] \<and> list_all is_digit s \<and> (s = ''0'' \<or> hd s \<noteq> CHR ''0'')
      \<and> decimal_value s < 4294967295)"

definition object_entries :: "(string \<times> 'v) list \<Rightarrow> (string \<times> 'v) list" where
  "object_entries obj =
     sort_key (\<lambda>p. decimal_value (fst p)) (filter (\<lambda>p. is_array_index_key (fst p)) obj)
     @ filter (\<lambda>p. \<not> is_array_index_key (fst p)) obj"

text \<open>
  The same listing for an object whose property names are numbers (line numbers): a
  number below \<open>2^32 - 1\<close> is an array index.
\<close>

definition object_values_nat :: "(nat \<times> 'v) list \<Rightarrow> 'v list" where
  "object_values_nat obj =
     map snd (sort_key fst (filter (\<lambda>p. fst p < 4294967295) obj))
     @ map snd (filter (\<lambda>p. \<not> fst p < 4294967295) obj)"

section \<open>metricsService.js: the summary\<close>

text \<open>The object \<^verbatim>\<open>calculateSummaryMetrics\<close> returns.\<close>

record summary =
  executionTime :: real
  peakMemory :: real
  totalFunctionCalls :: nat
  uniqueFunctions :: nat
  mostExpensiveFunction :: "string option"
  mostExpensiveFunctionTime :: real


text \<open>
  What a property of \<^verbatim>\<open>functionTimes\<close> holds: a number, or what \<^verbatim>\<open>+=\<close> makes of a value that
  is not a number (\<^verbatim>\<open>NaN\<close>, or a string that is no numeral, when the name read is one of
  \<^verbatim>\<open>Object.prototype\<close>). Every comparison \<^verbatim>\<open>time > maxTime\<close> with the latter is false.
\<close>

datatype js_slot = Num real | NotNumber

text \<open>\<^verbatim>\<open>!functionTimes[call.name]\<close>\<close>

definition falsy_slot :: "js_slot js_read \<Rightarrow> bool" where
  "falsy_slot r =
     (case r of
        Undefined \<Rightarrow> True
      | Own (Num t) \<Rightarrow> t = 0
      | Own NotNumber \<Rightarrow> False
      | Inherited \<Rightarrow> False)"

text \<open>\<^verbatim>\<open>functionTimes[call.name] + call.duration\<close>\<close>

definition add_duration :: "js_slot js_read \<Rightarrow> real \<Rightarrow> js_slot" where
  "add_duration r d =
     (case r of
        Own (Num t) \<Rightarrow> Num (t + d)
      | _ \<Rightarrow> NotNumber)"

text \<open>
  \<^verbatim>\<open>if (!functionTimes[call.name]) { functionTimes[call.name] = 0; }
  functionTimes[call.name] += call.duration;\<close>
\<close>

definition functionTimes_step ::
  "function_call \<Rightarrow> (string \<times> js_slot) list \<Rightarrow> (string \<times> js_slot) list" where
  "functionTimes_step call functionTimes =
     (let ft = (if falsy_slot (read_prop functionTimes (fc_name call))
                then write_prop (fc_name call) (Num 0) functionTimes
                else functionTimes)
      in write_prop (fc_name call)
           (add_duration (read_prop ft (fc_name call)) (fc_duration call)) ft)"

text \<open>
  \<^verbatim>\<open>if (time > maxTime) { maxTime = time; mostExpensiveFunction = name; }\<close>
  on the pair \<open>(mostExpensiveFunction, maxTime)\<close>.
\<close>

definition select_step ::
  "string \<times> js_slot \<Rightarrow> string option \<times> real \<Rightarrow> string option \<times> real" where
  "select_step entry best =
     (case snd entry of
        Num time \<Rightarrow> if time > snd best then (Some (fst entry), time) else best
      | NotNumber \<Rightarrow> best)"

definition calculateSummaryMetrics :: "raw_metrics \<Rightarrow> summary" where
  "calculateSummaryMetrics metrics =
     (let peak = fold (\<lambda>point mx. if mem_value point > mx then mem_value point else mx)
                   (memoryUsage metrics) 0;
          functionTimes = fold functionTimes_step (functionCalls metrics) [];
          best = fold select_step (object_entries functionTimes) (None, 0)
      in \<lparr>executionTime = rm_executionTime metrics,
          peakMemory = peak,
          totalFunctionCalls = length (functionCalls metrics),
          uniqueFunctions = length (new_Set (map fc_name (functionCalls metrics))),
          mostExpensiveFunction = fst best,
          mostExpensiveFunctionTime = snd best\<rparr>)"

text \<open>
  For the statements about the summary: the cumulative duration of a name in a list of
  calls, and the names a plain object treats as nothing but keys.
\<close>

definition total_of :: "string \<Rightarrow> function_call list \<Rightarrow> real" where
  "total_of n calls = sum_list (map fc_duration (filter (\<lambda>c. fc_name c = n) calls))"

definition plain_name :: "string \<Rightarrow> bool" where
  "plain_name n = (\<not> is_array_index_key n \<and> n \<notin> set object_prototype_names)"

text \<open>
  The invariant of the loop that fills \<^verbatim>\<open>functionTimes\<close>, for names that are nothing but keys:
  the properties are the distinct names in order of first appearance, each with its
  cumulative duration.
\<close>

definition times_ok :: "function_call list \<Rightarrow> (string \<times> js_slot) list \<Rightarrow> bool" where
  "times_ok calls ft \<longleftrightarrow>
     map fst ft = new_Set (map fc_name calls)
     \<and> (\<forall>n. map_of ft n =
           (if n \<in> fc_name ` set calls then Some (Num (total_of n calls)) else None))"

section \<open>metricsService.js: the call graph\<close>

record link_entry =
  le_source :: string
  le_target :: string
  le_count :: nat
  le_totalDuration :: real

record link =
  source :: string
  target :: string
  count :: nat
  averageDuration :: real

record call_graph =
  nodes :: "string list"
  links :: "link list"

text \<open>\<^verbatim>\<open>call.caller || 'global'\<close>: an absent or empty caller is falsy.\<close>

definition call_source :: "function_call \<Rightarrow> string" where
  "call_source call =
     (case fc_caller call of
        None \<Rightarrow> ''global''
      | Some c \<Rightarrow> if c = [] then ''global'' else c)"

text \<open>The link identifier \<^verbatim>\<open>`${source}->${target}`\<close>.\<close>

definition linkId :: "string \<Rightarrow> string \<Rightarrow> string" where
  "linkId src tgt = src @ ''->'' @ tgt"

definition call_linkId :: "function_call \<Rightarrow> string" where
  "call_linkId call = linkId (call_source call) (fc_name call)"

text \<open>One round of \<^verbatim>\<open>functionCalls.forEach\<close>, on the pair \<open>(nodes, callCountMap)\<close>.\<close>

definition callGraph_step ::
  "function_call \<Rightarrow> string list \<times> (string \<times> link_entry) list
     \<Rightarrow> string list \<times> (string \<times> link_entry) list" where
  "callGraph_step call acc =
     (let src = call_source call;
          tgt = fc_name call;
          nodes' = set_add tgt (set_add src (fst acc));
          callCountMap = snd acc
      in (nodes',
          (case map_of callCountMap (linkId src tgt) of
             None \<Rightarrow>
               AList.update (linkId src tgt)
                 \<lparr>le_source = src, le_target = tgt, le_count = 1,
                  le_totalDuration = fc_duration call\<rparr> callCountMap
           | Some existing \<Rightarrow>
               AList.update (linkId src tgt)
                 (existing\<lparr>le_count := le_count existing + 1,
                    le_totalDuration := le_totalDuration existing + fc_duration call\<rparr>)
                 callCountMap)))"

definition link_of_entry :: "link_entry \<Rightarrow> link" where
  "link_of_entry v =
     \<lparr>source = le_source v, target = le_target v, count = le_count v,
      averageDuration = le_totalDuration v / real (le_count v)\<rparr>"

definition generateCallGraph :: "function_call list \<Rightarrow> call_graph" where
  "generateCallGraph calls =
     (let acc = fold callGraph_step calls ([], [])
      in \<lparr>nodes = fst acc, links = map (link_of_entry \<circ> snd) (snd acc)\<rparr>)"

text \<open>The calls of a list that fall on a link.\<close>

definition calls_on :: "string \<Rightarrow> function_call list \<Rightarrow> function_call list" where
  "calls_on k calls = filter (\<lambda>c. call_linkId c = k) calls"

text \<open>
  The invariant of the loop of \<^verbatim>\<open>generateCallGraph\<close>: the nodes are the sources and targets
  in order of first appearance; the map has one entry per link identifier, in order of
  first appearance, made from the calls on that link (source and target are those of the
  first).
\<close>

definition entry_of :: "string \<Rightarrow> function_call list \<Rightarrow> link_entry" where
  "entry_of k calls =
     \<lparr>le_source = call_source (hd (calls_on k calls)),
      le_target = fc_name (hd (calls_on k calls)),
      le_count = length (calls_on k calls),
      le_totalDuration = sum_list (map fc_duration (calls_on k calls))\<rparr>"

definition graph_ok ::
  "function_call list \<Rightarrow> string list \<times> (string \<times> link_entry) list \<Rightarrow> bool" where
  "graph_ok calls acc \<longleftrightarrow>
     fst acc = new_Set (concat (map (\<lambda>c. [call_source c, fc_name c]) calls))
     \<and> map fst (snd acc) = new_Set (map call_linkId calls)
     \<and> (\<forall>k. map_of (snd acc) k =
           (if k \<in> call_linkId ` set calls then Some (entry_of k calls) else None))"

section \<open>metricsService.js and visualizationService.js: lines\<close>

text \<open>
  \<^verbatim>\<open>processExecutionFlow\<close> (server) groups the steps by line and returns every group with
  its average; it neither filters nor sorts.
\<close>

record line_execution =
  lx_line :: nat
  lx_code :: string
  lx_executionCount :: nat
  lx_totalTime :: real
  lx_timestamps :: "real list"

record line_summary = line_execution +
  lx_averageTime :: real

definition lineExecutions_step ::
  "flow_step \<Rightarrow> (nat \<times> line_execution) list \<Rightarrow> (nat \<times> line_execution) list" where
  "lineExecutions_step step lineExecutions =
     (let le = (case map_of lineExecutions (ef_line step) of
                  None \<Rightarrow>
                    AList.update (ef_line step)
                      \<lparr>lx_line = ef_line step, lx_code = ef_code step, lx_executionCount = 0,
                       lx_totalTime = 0, lx_timestamps = []\<rparr> lineExecutions
                | Some _ \<Rightarrow> lineExecutions)
      in AList.map_entry (ef_line step)
           (\<lambda>g. g\<lparr>lx_executionCount := lx_executionCount g + 1,
                  lx_totalTime := lx_totalTime g + ef_duration step,
                  lx_timestamps := lx_timestamps g @ [ef_timestamp step]\<rparr>) le)"

definition processExecutionFlow :: "flow_step list \<Rightarrow> line_summary list" where
  "processExecutionFlow flow =
     map (\<lambda>g. line_execution.extend g
                \<lparr>lx_averageTime = lx_totalTime g / real (lx_executionCount g)\<rparr>)
       (object_values_nat (fold lineExecutions_step flow []))"














section \<open>metricsService.js: comparison of two runs\<close>

text \<open>
  JavaScript's \<^verbatim>\<open>/\<close> never raises: a zero divisor gives \<^verbatim>\<open>Infinity\<close> or \<^verbatim>\<open>NaN\<close>. So that
  dividing by zero is a visible outcome of the model, the one division of
  \<^verbatim>\<open>calculatePercentChange\<close> is written with \<open>js_divide\<close>, which reports a zero divisor.
\<close>

datatype arith_error = DivisionByZero

definition js_divide :: "real \<Rightarrow> real \<Rightarrow> arith_error + real" where
  "js_divide a b = (if b = 0 then Inl DivisionByZero else Inr (a / b))"

text \<open>
  \<^verbatim>\<open>if (oldValue === 0) return newValue === 0 ? 0 : 100;
  return ((newValue - oldValue) / oldValue) * 100;\<close>
\<close>

definition calculatePercentChange :: "real \<Rightarrow> real \<Rightarrow> arith_error + real" where
  "calculatePercentChange oldValue newValue =
     (if oldValue = 0 then Inr (if newValue = 0 then 0 else 100)
      else (case js_divide (newValue - oldValue) oldValue of
              Inl e \<Rightarrow> Inl e
            | Inr q \<Rightarrow> Inr (q * 100)))"

record metric_delta =
  diff :: real
  percentChange :: real

text \<open>
  \<^verbatim>\<open>comparison\<close> is built with its three metric entries first; \<^verbatim>\<open>overallImprovement\<close>
  is added from them.
\<close>

record deltas =
  cmp_executionTime :: metric_delta
  cmp_memoryUsage :: metric_delta
  cmp_functionCalls :: metric_delta

datatype verdict = code1 | code2 | tie

record comparison = deltas +
  overallImprovement :: verdict

text \<open>
  The score starts at 0; each metric adds its weight when its percent change is negative
  and subtracts it when positive.
\<close>

definition score_step :: "int \<Rightarrow> real \<Rightarrow> int \<Rightarrow> int" where
  "score_step weight change score =
     (if change < 0 then score + weight
      else if change > 0 then score - weight
      else score)"

definition overall_score :: "deltas \<Rightarrow> int" where
  "overall_score c =
     score_step 1 (percentChange (cmp_functionCalls c))
       (score_step 2 (percentChange (cmp_memoryUsage c))
         (score_step 3 (percentChange (cmp_executionTime c)) 0))"

definition determineOverallImprovement :: "deltas \<Rightarrow> verdict" where
  "determineOverallImprovement c =
     (let score = overall_score c in
      if score > 0 then code1
      else if score < 0 then code2
      else tie)"

text \<open>One entry of the comparison: \<^verbatim>\<open>{diff: v2 - v1, percentChange: calculatePercentChange(v1, v2)}\<close>.\<close>

definition metric_entry :: "real \<Rightarrow> real \<Rightarrow> arith_error + metric_delta" where
  "metric_entry v1 v2 =
     (case calculatePercentChange v1 v2 of
        Inl e \<Rightarrow> Inl e
      | Inr p \<Rightarrow> Inr \<lparr>diff = v2 - v1, percentChange = p\<rparr>)"

text \<open>
  \<^verbatim>\<open>compareMetrics(metrics1, metrics2)\<close> reads only \<^verbatim>\<open>metricsN.metrics.summary\<close>, so the model
  takes the two summaries.
\<close>

definition compareMetrics :: "summary \<Rightarrow> summary \<Rightarrow> arith_error + comparison" where
  "compareMetrics metrics1 metrics2 =
     (case metric_entry (executionTime metrics1) (executionTime metrics2) of
        Inl e \<Rightarrow> Inl e
      | Inr t \<Rightarrow>
     (case metric_entry (peakMemory metrics1) (peakMemory metrics2) of
        Inl e \<Rightarrow> Inl e
      | Inr m \<Rightarrow>
     (case metric_entry (real (totalFunctionCalls metrics1)) (real (totalFunctionCalls metrics2)) of
        Inl e \<Rightarrow> Inl e
      | Inr f \<Rightarrow>
          (let c = \<lparr>cmp_executionTime = t, cmp_memoryUsage = m, cmp_functionCalls = f\<rparr>
           in Inr (deltas.extend c
                 \<lparr>overallImprovement = determineOverallImprovement c\<rparr>)))))"

text \<open>The verdict with the two programs exchanged.\<close>

fun swap_verdict :: "verdict \<Rightarrow> verdict" where
  "swap_verdict code1 = code2"
| "swap_verdict code2 = code1"
| "swap_verdict tie = tie"

text \<open>
  The weighted balance of two summaries, read off the values themselves: positive when the
  second run is lower on balance (execution time weighs 3, peak memory 2, number of
  function calls 1).
\<close>

definition weighted :: "summary \<Rightarrow> summary \<Rightarrow> real" where
  "weighted a b = 3 * sgn (executionTime a - executionTime b)
     + 2 * sgn (peakMemory a - peakMemory b)
     + sgn (real (totalFunctionCalls a) - real (totalFunctionCalls b))"

section \<open>Observations on the messages of an instrumented program\<close>



text \<open>Bounds on the summaries a message carries.\<close>

definition args_within :: "nat \<Rightarrow> message \<Rightarrow> bool" where
  "args_within k m =
     (case m of
        Event (FunctionCall c) \<Rightarrow> list_all (\<lambda>a. length a \<le> k) (fc_args c)
      | _ \<Rightarrow> True)"

definition value_within :: "nat \<Rightarrow> message \<Rightarrow> bool" where
  "value_within k m =
     (case m of
        Event (VariableState v) \<Rightarrow> length (vs_value v) \<le> k
      | _ \<Rightarrow> True)"

definition summaries_bounded :: "collector \<Rightarrow> bool" where
  "summaries_bounded st = list_all (\<lambda>m. args_within 100 m \<and> value_within 103 m) (sent st)"

text \<open>A concrete run: every option on, a value whose JSON text has 150 characters.\<close>

definition all_on :: options where
  "all_on = \<lparr>trackMemory = True, trackVariables = True, trackFunctions = True,
     trackExecutionFlow = True\<rparr>"

definition js_example_readings :: js_readings where
  "js_example_readings = \<lparr>t_start = 1000, t_first_sample = 1001, heap_first_sample = 0,
     t_last_sample = 1010, heap_last_sample = 0, t_complete = 1011\<rparr>"


definition long_number :: traced_value where
  "long_number = \<lparr>stringified = Some (replicate 150 CHR ''7''), type_of = ''number''\<rparr>"

text \<open>The trace of the aggregation example: three calls of \<open>f\<close> and two of \<open>g\<close>.\<close>

definition a_call :: "string \<Rightarrow> string option \<Rightarrow> real \<Rightarrow> function_call" where
  "a_call name caller duration =
     \<lparr>fc_timestamp = 0, fc_name = name, fc_caller = caller, fc_args = [],
      fc_duration = duration, fc_endTimestamp = duration\<rparr>"

definition trace_f_g :: raw_metrics where
  "trace_f_g =
     \<lparr>rm_executionTime = 100, memoryUsage = [],
      functionCalls = [a_call ''f'' None 10, a_call ''g'' (Some ''f'') 5, a_call ''f'' None 20,
                       a_call ''g'' (Some ''f'') 5, a_call ''f'' None 30],
      variableStates = [], executionFlow = []\<rparr>"

text \<open>The trace of the heatmap example: line 4 once, line 7 three times.\<close>

definition a_step :: "nat \<Rightarrow> string \<Rightarrow> real \<Rightarrow> real \<Rightarrow> flow_step" where
  "a_step l code t d = \<lparr>ef_timestamp = t, ef_line = l, ef_code = code, ef_duration = d\<rparr>"

definition trace_lines_4_7 :: "flow_step list" where
  "trace_lines_4_7 =
     [a_step 7 ''s += i;'' 1 2, a_step 4 ''let s = 0;'' 0 1, a_step 7 ''s += i;'' 3 2,
      a_step 7 ''s += i;'' 5 1]"



text \<open>Two summaries used as a concrete instance below.\<close>

definition run_first :: summary where
  "run_first = \<lparr>executionTime = 12, peakMemory = 300, totalFunctionCalls = 3,
      uniqueFunctions = 2, mostExpensiveFunction = None, mostExpensiveFunctionTime = 0\<rparr>"

definition run_second :: summary where
  "run_second = \<lparr>executionTime = 8, peakMemory = 300, totalFunctionCalls = 5,
      uniqueFunctions = 2, mostExpensiveFunction = None, mostExpensiveFunctionTime = 0\<rparr>"

chapter \<open>Properties\<close>

section \<open>Percent change\<close>

text \<open>
  Claim C9. \<^verbatim>\<open>calculatePercentChange\<close> returns a number for every pair of numbers and
  never divides by zero: with an old value of 0 it returns 0 when the new value is 0 too and
  100 otherwise; with a nonzero old value it returns \<open>((new - old) / old) * 100\<close>.
\<close>

theorem calculatePercentChange_total:
  "calculatePercentChange oldValue newValue =
     Inr (if oldValue = 0 then (if newValue = 0 then 0 else 100)
          else ((newValue - oldValue) / oldValue) * 100)"
  by (simp add: calculatePercentChange_def js_divide_def)


section \<open>Comparison of two runs\<close>

lemma calculatePercentChange_eq:
  "calculatePercentChange a b =
     Inr (if a = 0 then (if b = 0 then 0 else 100) else ((b - a) / a) * 100)"
  by (simp add: calculatePercentChange_def js_divide_def)

text \<open>On non-negative values the percent change has the sign of the difference.\<close>

lemma percent_sign:
  assumes "0 \<le> a" "0 \<le> b" "calculatePercentChange a b = Inr p"
  shows "(p < 0 \<longleftrightarrow> b < a) \<and> (0 < p \<longleftrightarrow> a < b)"
proof (cases "a = 0")
  case True
  with assms show ?thesis
    by (auto simp: calculatePercentChange_eq split: if_splits)
next
  case False
  with assms have pos: "0 < a" by simp
  from assms False have p: "p = ((b - a) / a) * 100"
    by (simp add: calculatePercentChange_eq)
  from pos show ?thesis unfolding p
    by (simp add: divide_less_0_iff zero_less_divide_iff mult_less_0_iff zero_less_mult_iff)
qed

lemma score_step_sgn:
  assumes "0 \<le> a" "0 \<le> b" "calculatePercentChange a b = Inr p"
  shows "real_of_int (score_step w p s) = real_of_int s + real_of_int w * sgn (a - b)"
  using percent_sign[OF assms] by (auto simp: score_step_def sgn_if)

lemma metric_entry_eq:
  "metric_entry a b = Inr \<lparr>diff = b - a,
      percentChange = (if a = 0 then (if b = 0 then 0 else 100) else ((b - a) / a) * 100)\<rparr>"
  by (simp add: metric_entry_def calculatePercentChange_eq)

lemma compareMetrics_Inr: "\<exists>c. compareMetrics a b = Inr c"
  by (simp add: compareMetrics_def metric_entry_eq Let_def)

lemma compareMetrics_score:
  assumes "0 \<le> executionTime a" "0 \<le> peakMemory a" "0 \<le> executionTime b" "0 \<le> peakMemory b"
    and "compareMetrics a b = Inr c"
  shows "real_of_int (overall_score (deltas.truncate c)) = weighted a b"
    and "overallImprovement c = determineOverallImprovement (deltas.truncate c)"
    and "diff (cmp_executionTime c) = executionTime b - executionTime a"
    and "diff (cmp_memoryUsage c) = peakMemory b - peakMemory a"
    and "diff (cmp_functionCalls c) = real (totalFunctionCalls b) - real (totalFunctionCalls a)"
  using assms(5)
  by (auto simp: compareMetrics_def metric_entry_eq Let_def overall_score_def weighted_def
      deltas.truncate_def deltas.extend_def
      score_step_sgn[OF assms(1) assms(3)] score_step_sgn[OF assms(2) assms(4)]
      score_step_sgn[of "real (totalFunctionCalls a)" "real (totalFunctionCalls b)"]
      calculatePercentChange_eq)

lemma verdict_of_score:
  "determineOverallImprovement c =
     (if 0 < real_of_int (overall_score c) then code1
      else if real_of_int (overall_score c) < 0 then code2 else tie)"
  by (simp add: determineOverallImprovement_def Let_def)

lemma weighted_swap: "weighted b a = - weighted a b"
proof -
  have "sgn (x - y) = - sgn (y - x)" for x y :: real
    by (simp add: sgn_if)
  then show ?thesis
    unfolding weighted_def by (smt (verit))
qed

text \<open>
  Claim C3, as the code has it. The claim's last part fails: both directions report a tie
  whenever the weighted score is 0, and 3 = 2 + 1, so a run that is faster but uses more
  memory and makes more calls ties with nonzero deltas.
\<close>

theorem compareMetrics_tie_counterexample:
  "compareMetrics
     \<lparr>executionTime = 10, peakMemory = 100, totalFunctionCalls = 2, uniqueFunctions = 1,
      mostExpensiveFunction = Some ''f'', mostExpensiveFunctionTime = 4\<rparr>
     \<lparr>executionTime = 5, peakMemory = 200, totalFunctionCalls = 4, uniqueFunctions = 1,
      mostExpensiveFunction = Some ''f'', mostExpensiveFunctionTime = 2\<rparr>
   = Inr \<lparr>cmp_executionTime = \<lparr>diff = - 5, percentChange = - 50\<rparr>,
          cmp_memoryUsage = \<lparr>diff = 100, percentChange = 100\<rparr>,
          cmp_functionCalls = \<lparr>diff = 2, percentChange = 100\<rparr>,
          overallImprovement = tie\<rparr>
   \<and> compareMetrics
     \<lparr>executionTime = 5, peakMemory = 200, totalFunctionCalls = 4, uniqueFunctions = 1,
      mostExpensiveFunction = Some ''f'', mostExpensiveFunctionTime = 2\<rparr>
     \<lparr>executionTime = 10, peakMemory = 100, totalFunctionCalls = 2, uniqueFunctions = 1,
      mostExpensiveFunction = Some ''f'', mostExpensiveFunctionTime = 4\<rparr>
   = Inr \<lparr>cmp_executionTime = \<lparr>diff = 5, percentChange = 100\<rparr>,
          cmp_memoryUsage = \<lparr>diff = - 100, percentChange = - 50\<rparr>,
          cmp_functionCalls = \<lparr>diff = - 2, percentChange = - 50\<rparr>,
          overallImprovement = tie\<rparr>"
  by (simp add: compareMetrics_def metric_entry_eq Let_def deltas.extend_def
      determineOverallImprovement_def overall_score_def score_step_def)

text \<open>
  Claim C3 (amended). For two summaries with non-negative execution time and peak memory
  (what the aggregator produces), both comparisons return a result; each \<open>diff\<close> of one
  direction is the negation of the other direction's; the verdict of one direction is the
  other's with \<open>code1\<close> and \<open>code2\<close> exchanged; and the verdict is \<open>code1\<close>, \<open>code2\<close> or \<open>tie\<close>
  as the weighted balance (time 3, memory 2, calls 1; a lower second value counts
  positive) is positive, negative or zero. A tie is reported exactly when that balance is
  0, which all-zero deltas give, and so do deltas that cancel.
\<close>

theorem compareMetrics_swap:
  assumes "0 \<le> executionTime a" and "0 \<le> peakMemory a"
    and "0 \<le> executionTime b" and "0 \<le> peakMemory b"
  shows "\<exists>ab ba. compareMetrics a b = Inr ab \<and> compareMetrics b a = Inr ba
     \<and> diff (cmp_executionTime ab) = - diff (cmp_executionTime ba)
     \<and> diff (cmp_memoryUsage ab) = - diff (cmp_memoryUsage ba)
     \<and> diff (cmp_functionCalls ab) = - diff (cmp_functionCalls ba)
     \<and> overallImprovement ab = swap_verdict (overallImprovement ba)
     \<and> (overallImprovement ab = code1 \<longleftrightarrow> 0 < weighted a b)
     \<and> (overallImprovement ab = code2 \<longleftrightarrow> weighted a b < 0)
     \<and> (overallImprovement ab = tie \<longleftrightarrow> weighted a b = 0)"
proof -
  obtain ab where ab: "compareMetrics a b = Inr ab"
    using compareMetrics_Inr by blast
  obtain ba where ba: "compareMetrics b a = Inr ba"
    using compareMetrics_Inr by blast
  note AB = compareMetrics_score[OF assms(1) assms(2) assms(3) assms(4) ab]
  note BA = compareMetrics_score[OF assms(3) assms(4) assms(1) assms(2) ba]
  have vab: "overallImprovement ab =
      (if 0 < weighted a b then code1 else if weighted a b < 0 then code2 else tie)"
    using AB(1) AB(2) by (simp add: verdict_of_score)
  have vba: "overallImprovement ba =
      (if 0 < weighted b a then code1 else if weighted b a < 0 then code2 else tie)"
    using BA(1) BA(2) by (simp add: verdict_of_score)
  have diffs: "diff (cmp_executionTime ab) = - diff (cmp_executionTime ba)"
      "diff (cmp_memoryUsage ab) = - diff (cmp_memoryUsage ba)"
      "diff (cmp_functionCalls ab) = - diff (cmp_functionCalls ba)"
    by (simp_all add: AB BA)
  have swap: "overallImprovement ab = swap_verdict (overallImprovement ba)"
    unfolding vab vba weighted_swap[of a b] by simp
  have c1: "overallImprovement ab = code1 \<longleftrightarrow> 0 < weighted a b"
    and c2: "overallImprovement ab = code2 \<longleftrightarrow> weighted a b < 0"
    and c3: "overallImprovement ab = tie \<longleftrightarrow> weighted a b = 0"
    unfolding vab by auto
  from ab ba diffs swap c1 c2 c3 show ?thesis by blast
qed

theorem compareMetrics_swap_witness:
  "0 \<le> executionTime run_first \<and> 0 \<le> peakMemory run_first
   \<and> 0 \<le> executionTime run_second \<and> 0 \<le> peakMemory run_second
   \<and> weighted run_first run_second = 2
   \<and> (\<exists>ab ba. compareMetrics run_first run_second = Inr ab
     \<and> compareMetrics run_second run_first = Inr ba
     \<and> diff (cmp_executionTime ab) = - diff (cmp_executionTime ba)
     \<and> diff (cmp_memoryUsage ab) = - diff (cmp_memoryUsage ba)
     \<and> diff (cmp_functionCalls ab) = - diff (cmp_functionCalls ba)
     \<and> overallImprovement ab = code1 \<and> overallImprovement ba = code2)"
proof -
  have h: "0 \<le> executionTime run_first" "0 \<le> peakMemory run_first"
     "0 \<le> executionTime run_second" "0 \<le> peakMemory run_second"
    by (simp_all add: run_first_def run_second_def)
  have w: "weighted run_first run_second = 2"
    by (simp add: weighted_def run_first_def run_second_def)
  from compareMetrics_swap[OF h] obtain ab ba where
    *: "compareMetrics run_first run_second = Inr ab"
     "compareMetrics run_second run_first = Inr ba"
     "diff (cmp_executionTime ab) = - diff (cmp_executionTime ba)"
     "diff (cmp_memoryUsage ab) = - diff (cmp_memoryUsage ba)"
     "diff (cmp_functionCalls ab) = - diff (cmp_functionCalls ba)"
     "overallImprovement ab = swap_verdict (overallImprovement ba)"
     "overallImprovement ab = code1 \<longleftrightarrow> 0 < weighted run_first run_second"
    by blast
  from *(7) w have c1: "overallImprovement ab = code1" by simp
  with *(6) have c2: "overallImprovement ba = code2"
    by (cases "overallImprovement ba") simp_all
  from h w * c1 c2 show ?thesis by blast
qed


section \<open>The exits of the instrumented program\<close>












section \<open>The length of the summaries\<close>

lemma js_arg_summary_le: "length (js_arg_summary a) \<le> 100"
  by (simp add: js_arg_summary_def split: option.split)

lemma py_arg_summary_le: "length (py_arg_summary a) \<le> 100"
  by (simp add: py_arg_summary_def split: option.split)

lemma js_value_summary_le: "length (js_value_summary v) \<le> 103"
  by (auto simp add: js_value_summary_def Let_def min_def split: option.split)

lemma py_value_summary_le: "length (py_value_summary v) \<le> 103"
  by (auto simp add: py_value_summary_def Let_def min_def split: option.split)

lemma js_value_summary_over:
  "100 < length (js_value_summary v) \<longleftrightarrow> (\<exists>s. stringified v = Some s \<and> 100 \<le> length s)"
  by (auto simp add: js_value_summary_def Let_def min_def split: option.split)

lemma py_value_summary_over:
  "100 < length (py_value_summary v) \<longleftrightarrow> (\<exists>s. stringified v = Some s \<and> 100 \<le> length s)"
  by (auto simp add: py_value_summary_def Let_def min_def split: option.split)

text \<open>The bounds hold of every message sent so far, and every call of the collector keeps them.\<close>

lemma bounded_init: "summaries_bounded (collector_init t)"
  by (simp add: summaries_bounded_def collector_init_def)

lemma bounded_js_trackMemory:
  "summaries_bounded st \<Longrightarrow> summaries_bounded (js_trackMemory opts now h a d st)"
  by (simp add: summaries_bounded_def js_trackMemory_def Let_def args_within_def value_within_def)

lemma bounded_py_track_memory:
  "summaries_bounded st \<Longrightarrow> summaries_bounded (py_track_memory opts now h a d st)"
  by (simp add: summaries_bounded_def py_track_memory_def Let_def args_within_def value_within_def)

lemma bounded_js_hook:
  "summaries_bounded st \<Longrightarrow> summaries_bounded (js_hook_run opts h st)"
  by (cases h)
    (simp_all add: summaries_bounded_def js_trackVariable_def js_trackFunctionCall_def
      js_trackExecution_def js_varData_def js_callData_def Let_def args_within_def
      value_within_def js_value_summary_le js_arg_summary_le list_all_iff)

lemma bounded_py_hook:
  "summaries_bounded st \<Longrightarrow> summaries_bounded (py_hook_run opts h st)"
  by (cases h)
    (simp_all add: summaries_bounded_def py_track_function_call_def
      py_call_data_def Let_def args_within_def
      value_within_def py_arg_summary_le list_all_iff)

lemma bounded_fold_js:
  "summaries_bounded st \<Longrightarrow> summaries_bounded (fold (js_hook_run opts) hooks st)"
  by (induction hooks arbitrary: st) (simp_all add: bounded_js_hook)

lemma bounded_fold_py:
  "summaries_bounded st \<Longrightarrow> summaries_bounded (fold (py_hook_run opts) hooks st)"
  by (induction hooks arbitrary: st) (simp_all add: bounded_py_hook)

lemma bounded_js_done: "summaries_bounded (js_user_code_done opts r hooks)"
  unfolding js_user_code_done_def
  by (intro bounded_fold_js bounded_js_trackMemory bounded_init)

lemma bounded_py_done: "summaries_bounded (py_user_code_done opts r hooks)"
  unfolding py_user_code_done_def
  by (intro bounded_fold_py bounded_py_track_memory bounded_init)

lemma bounded_snoc_marker:
  "summaries_bounded st \<Longrightarrow> is_marker m \<Longrightarrow> summaries_bounded (st\<lparr>sent := sent st @ [m]\<rparr>)"
  by (cases m) (simp_all add: summaries_bounded_def args_within_def value_within_def)

lemma bounded_js_program: "summaries_bounded (js_instrumented_program opts r hooks outcome)"
  unfolding js_instrumented_program_def Let_def
  by (cases outcome)
     (simp_all add: bounded_snoc_marker bounded_js_trackMemory bounded_js_done)

lemma bounded_py_program: "summaries_bounded (py_instrumented_program opts r hooks outcome)"
  unfolding py_instrumented_program_def Let_def
  by (cases outcome)
     (simp_all add: bounded_snoc_marker bounded_py_track_memory bounded_py_done)

text \<open>
  Claim C7, as the code has it. A value whose JSON text has 100 characters or more (here
  a string of 98 letters in its quotes) is cut to 100 and gets \<^verbatim>\<open>'...'\<close> appended: the
  summary has 103 characters.
\<close>

theorem value_summary_counterexample:
  "length (vs_value (js_varData 0 1 ''s''
      \<lparr>stringified = Some (CHR 0x22 # replicate 98 CHR ''a'' @ [CHR 0x22]), type_of = ''string''\<rparr>
      3 None)) = 103"
  by (simp add: js_varData_def js_value_summary_def Let_def)

text \<open>
  Claim C7 (amended). In every message either instrumented program sends, each argument
  summary of a function call has at most 100 characters and the value summary of a
  variable state has at most 103; the value summary is longer than 100 exactly when the
  JSON text of the value has 100 characters or more.
\<close>

theorem summaries_bounded_in_events:
  "(\<forall>m \<in> set (sent (js_instrumented_program opts r hooks outcome)).
       args_within 100 m \<and> value_within 103 m)
   \<and> (\<forall>m \<in> set (sent (py_instrumented_program opts pr phooks poutcome)).
       args_within 100 m \<and> value_within 103 m)
   \<and> (100 < length (vs_value (js_varData start now name v line varType))
        \<longleftrightarrow> (\<exists>s. stringified v = Some s \<and> 100 \<le> length s))
   \<and> (100 < length (vs_value (py_var_data start now name v line varType))
        \<longleftrightarrow> (\<exists>s. stringified v = Some s \<and> 100 \<le> length s))"
  using bounded_js_program[of opts r hooks outcome] bounded_py_program[of opts pr phooks poutcome]
  by (simp add: summaries_bounded_def list_all_iff js_varData_def py_var_data_def
      js_value_summary_over py_value_summary_over)

theorem summaries_bounded_in_events_witness:
  "Event (FunctionCall \<lparr>fc_timestamp = 2, fc_name = ''f'', fc_caller = Some ''global'',
       fc_args = [replicate 100 CHR ''7''], fc_duration = 1, fc_endTimestamp = 3\<rparr>)
     \<in> set (sent (js_instrumented_program all_on js_example_readings
        [TrackFunctionCall ''f'' (Some ''global'') [long_number] 1002 1003,
         TrackVariable 1004 ''x'' long_number 2 (Some ''let'')] Completes))
   \<and> Event (VariableState \<lparr>vs_timestamp = 4, vs_name = ''x'',
       vs_value = replicate 100 CHR ''7'' @ ''...'', vs_type = ''let'', vs_line = 2\<rparr>)
     \<in> set (sent (js_instrumented_program all_on js_example_readings
        [TrackFunctionCall ''f'' (Some ''global'') [long_number] 1002 1003,
         TrackVariable 1004 ''x'' long_number 2 (Some ''let'')] Completes))
   \<and> args_within 100 (Event (FunctionCall \<lparr>fc_timestamp = 2, fc_name = ''f'',
       fc_caller = Some ''global'', fc_args = [replicate 100 CHR ''7''], fc_duration = 1,
       fc_endTimestamp = 3\<rparr>))
   \<and> value_within 103 (Event (VariableState \<lparr>vs_timestamp = 4, vs_name = ''x'',
       vs_value = replicate 100 CHR ''7'' @ ''...'', vs_type = ''let'', vs_line = 2\<rparr>))"
proof -
  let ?P = "js_instrumented_program all_on js_example_readings
        [TrackFunctionCall ''f'' (Some ''global'') [long_number] 1002 1003,
         TrackVariable 1004 ''x'' long_number 2 (Some ''let'')] Completes"
  let ?c = "Event (FunctionCall \<lparr>fc_timestamp = 2, fc_name = ''f'', fc_caller = Some ''global'',
       fc_args = [replicate 100 CHR ''7''], fc_duration = 1, fc_endTimestamp = 3\<rparr>)"
  let ?v = "Event (VariableState \<lparr>vs_timestamp = 4, vs_name = ''x'',
       vs_value = replicate 100 CHR ''7'' @ ''...'', vs_type = ''let'', vs_line = 2\<rparr>)"
  have c: "?c \<in> set (sent ?P)" and v: "?v \<in> set (sent ?P)"
    by (simp_all add: js_instrumented_program_def js_user_code_done_def js_trackMemory_def
      collector_init_def Let_def all_on_def js_example_readings_def long_number_def
      js_trackFunctionCall_def js_trackVariable_def js_callData_def js_varData_def
      js_arg_summary_def js_value_summary_def js_complete_data_def)
  from summaries_bounded_in_events[of all_on js_example_readings _ Completes] c v
  show ?thesis by blast
qed


section \<open>The summary\<close>


lemma set_add_set: "set (set_add x xs) = insert x (set xs)"
  by (auto simp: set_add_def)

lemma set_add_distinct: "distinct xs \<Longrightarrow> distinct (set_add x xs)"
  by (simp add: set_add_def)

lemma new_Set_snoc: "new_Set (xs @ [x]) = set_add x (new_Set xs)"
  by (simp add: new_Set_def)

lemma new_Set_set: "set (new_Set xs) = set xs"
  by (induction xs rule: rev_induct) (simp_all add: new_Set_snoc set_add_set, simp add: new_Set_def)

lemma new_Set_distinct: "distinct (new_Set xs)"
  by (induction xs rule: rev_induct) (simp_all add: new_Set_snoc set_add_distinct, simp add: new_Set_def)

lemma length_new_Set: "length (new_Set xs) = card (set xs)"
  using distinct_card[OF new_Set_distinct, of xs] by (simp add: new_Set_set)

lemma update_keys_set_add: "map fst (AList.update k v al) = set_add k (map fst al)"
  by (simp add: update_keys set_add_def image_iff) 

lemma plain_not_proto: "plain_name n \<Longrightarrow> n \<noteq> ''__proto__''"
  by (auto simp: plain_name_def object_prototype_names_def)

lemma plain_read:
  "plain_name n \<Longrightarrow> read_prop obj n = (case map_of obj n of Some v \<Rightarrow> Own v | None \<Rightarrow> Undefined)"
  by (simp add: read_prop_def plain_name_def)

lemma plain_write: "plain_name n \<Longrightarrow> write_prop n v obj = AList.update n v obj"
  by (simp add: write_prop_def plain_not_proto)

lemma total_of_snoc:
  "total_of n (calls @ [c]) = total_of n calls + (if fc_name c = n then fc_duration c else 0)"
  by (simp add: total_of_def)

lemma total_of_absent: "n \<notin> fc_name ` set calls \<Longrightarrow> total_of n calls = 0"
proof -
  assume "n \<notin> fc_name ` set calls"
  then have "filter (\<lambda>c. fc_name c = n) calls = []"
    by (auto simp: filter_empty_conv)
  then show ?thesis by (simp add: total_of_def)
qed

lemma times_step:
  assumes ok: "times_ok calls ft" and plain: "plain_name (fc_name c)"
  shows "times_ok (calls @ [c]) (functionTimes_step c ft)"
proof -
  let ?n = "fc_name c"
  from ok have keys: "map fst ft = new_Set (map fc_name calls)"
    and vals: "\<And>n. map_of ft n =
           (if n \<in> fc_name ` set calls then Some (Num (total_of n calls)) else None)"
    by (simp_all add: times_ok_def)
  have step: "functionTimes_step c ft = AList.update ?n (Num (total_of ?n calls + fc_duration c)) ft"
  proof (cases "?n \<in> fc_name ` set calls")
    case True
    then have m: "map_of ft ?n = Some (Num (total_of ?n calls))" by (simp add: vals)
    show ?thesis
    proof (cases "total_of ?n calls = 0")
      case True
      with m have "AList.update ?n (Num 0) ft = ft" by (simp add: update_triv)
      with m True show ?thesis
        by (simp add: functionTimes_step_def plain_read[OF plain] plain_write[OF plain]
            falsy_slot_def add_duration_def Let_def)
    next
      case False
      with m show ?thesis
        by (simp add: functionTimes_step_def plain_read[OF plain] plain_write[OF plain]
            falsy_slot_def add_duration_def Let_def)
    qed
  next
    case False
    then have m: "map_of ft ?n = None" by (simp add: vals)
    from False have z: "total_of ?n calls = 0" by (rule total_of_absent)
    from m z show ?thesis
      by (simp add: functionTimes_step_def plain_read[OF plain] plain_write[OF plain]
          falsy_slot_def add_duration_def Let_def update_conv')
  qed
  have k: "map fst (functionTimes_step c ft) = new_Set (map fc_name (calls @ [c]))"
    unfolding step by (simp add: update_keys_set_add keys new_Set_snoc)
  have v: "map_of (functionTimes_step c ft) n =
           (if n \<in> fc_name ` set (calls @ [c]) then Some (Num (total_of n (calls @ [c]))) else None)" for n
    unfolding step by (auto simp add: update_conv' vals total_of_snoc)
  from k v show ?thesis unfolding times_ok_def by blast
qed

lemma times_fold:
  "\<forall>c \<in> set calls. plain_name (fc_name c) \<Longrightarrow> times_ok calls (fold functionTimes_step calls [])"
proof (induction calls rule: rev_induct)
  case Nil
  show ?case by (simp add: times_ok_def new_Set_def)
next
  case (snoc c calls)
  then show ?case by (simp add: times_step)
qed


lemma alist_canonical:
  "distinct (map fst al) \<Longrightarrow> al = map (\<lambda>k. (k, the (map_of al k))) (map fst al)"
proof (induction al)
  case Nil
  show ?case by simp
next
  case (Cons p al)
  obtain k v where p: "p = (k, v)" by (cases p)
  from Cons.prems p have notin: "k \<notin> fst ` set al" and d: "distinct (map fst al)" by auto
  from Cons.IH[OF d] have ih: "al = map (\<lambda>k. (k, the (map_of al k))) (map fst al)" .
  have "map (\<lambda>x. (x, the (map_of (p # al) x))) (map fst al)
        = map (\<lambda>x. (x, the (map_of al x))) (map fst al)"
    using notin p by (auto simp: image_iff)
  with ih p show ?case by simp
qed

lemma times_canonical:
  assumes "\<forall>c \<in> set calls. plain_name (fc_name c)"
  shows "fold functionTimes_step calls [] =
         map (\<lambda>n. (n, Num (total_of n calls))) (new_Set (map fc_name calls))"
proof -
  let ?ft = "fold functionTimes_step calls []"
  from times_fold[OF assms] have keys: "map fst ?ft = new_Set (map fc_name calls)"
    and vals: "\<And>n. map_of ?ft n =
           (if n \<in> fc_name ` set calls then Some (Num (total_of n calls)) else None)"
    by (simp_all add: times_ok_def)
  have d: "distinct (map fst ?ft)" by (simp add: keys new_Set_distinct)
  have "?ft = map (\<lambda>k. (k, the (map_of ?ft k))) (new_Set (map fc_name calls))"
    using alist_canonical[OF d] keys by simp
  also have "\<dots> = map (\<lambda>n. (n, Num (total_of n calls))) (new_Set (map fc_name calls))"
    by (rule map_cong) (auto simp: vals new_Set_set)
  finally show ?thesis .
qed

lemma object_entries_plain:
  "\<forall>p \<in> set obj. \<not> is_array_index_key (fst p) \<Longrightarrow> object_entries obj = obj"
  by (simp add: object_entries_def filter_empty_conv[THEN iffD2] cong: filter_cong)

lemma select_fold:
  "(fold select_step (map (\<lambda>n. (n, Num (f n))) ns) (b, m) = (b, m) \<and> (\<forall>x \<in> set ns. f x \<le> m))
   \<or> (\<exists>pre n post. ns = pre @ n # post
        \<and> fold select_step (map (\<lambda>n. (n, Num (f n))) ns) (b, m) = (Some n, f n)
        \<and> m < f n \<and> (\<forall>x \<in> set pre. f x < f n) \<and> (\<forall>x \<in> set post. f x \<le> f n))"
proof (induction ns arbitrary: b m)
  case Nil
  show ?case by simp
next
  case (Cons a ns)
  show ?case
  proof (cases "m < f a")
    case True
    then have st: "fold select_step (map (\<lambda>n. (n, Num (f n))) (a # ns)) (b, m)
        = fold select_step (map (\<lambda>n. (n, Num (f n))) ns) (Some a, f a)"
      by (simp add: select_step_def)
    from Cons.IH[of "Some a" "f a"] show ?thesis
    proof
      assume "fold select_step (map (\<lambda>n. (n, Num (f n))) ns) (Some a, f a) = (Some a, f a)
          \<and> (\<forall>x \<in> set ns. f x \<le> f a)"
      with st True have "a # ns = [] @ a # ns
        \<and> fold select_step (map (\<lambda>n. (n, Num (f n))) (a # ns)) (b, m) = (Some a, f a)
        \<and> m < f a \<and> (\<forall>x \<in> set []. f x < f a) \<and> (\<forall>x \<in> set ns. f x \<le> f a)"
        by simp
      then show ?thesis by blast
    next
      assume "\<exists>pre n post. ns = pre @ n # post
        \<and> fold select_step (map (\<lambda>n. (n, Num (f n))) ns) (Some a, f a) = (Some n, f n)
        \<and> f a < f n \<and> (\<forall>x \<in> set pre. f x < f n) \<and> (\<forall>x \<in> set post. f x \<le> f n)"
      then obtain pre n post where *: "ns = pre @ n # post"
        "fold select_step (map (\<lambda>n. (n, Num (f n))) ns) (Some a, f a) = (Some n, f n)"
        "f a < f n" "\<forall>x \<in> set pre. f x < f n" "\<forall>x \<in> set post. f x \<le> f n"
        by blast
      from * st True have "a # ns = (a # pre) @ n # post
        \<and> fold select_step (map (\<lambda>n. (n, Num (f n))) (a # ns)) (b, m) = (Some n, f n)
        \<and> m < f n \<and> (\<forall>x \<in> set (a # pre). f x < f n) \<and> (\<forall>x \<in> set post. f x \<le> f n)"
        by simp
      then show ?thesis by blast
    qed
  next
    case False
    then have st: "fold select_step (map (\<lambda>n. (n, Num (f n))) (a # ns)) (b, m)
        = fold select_step (map (\<lambda>n. (n, Num (f n))) ns) (b, m)"
      by (simp add: select_step_def)
    from Cons.IH[of b m] show ?thesis
    proof
      assume "fold select_step (map (\<lambda>n. (n, Num (f n))) ns) (b, m) = (b, m)
          \<and> (\<forall>x \<in> set ns. f x \<le> m)"
      with st False show ?thesis by simp
    next
      assume "\<exists>pre n post. ns = pre @ n # post
        \<and> fold select_step (map (\<lambda>n. (n, Num (f n))) ns) (b, m) = (Some n, f n)
        \<and> m < f n \<and> (\<forall>x \<in> set pre. f x < f n) \<and> (\<forall>x \<in> set post. f x \<le> f n)"
      then obtain pre n post where *: "ns = pre @ n # post"
        "fold select_step (map (\<lambda>n. (n, Num (f n))) ns) (b, m) = (Some n, f n)"
        "m < f n" "\<forall>x \<in> set pre. f x < f n" "\<forall>x \<in> set post. f x \<le> f n"
        by blast
      from * st False have "a # ns = (a # pre) @ n # post
        \<and> fold select_step (map (\<lambda>n. (n, Num (f n))) (a # ns)) (b, m) = (Some n, f n)
        \<and> m < f n \<and> (\<forall>x \<in> set (a # pre). f x < f n) \<and> (\<forall>x \<in> set post. f x \<le> f n)"
        by simp
      then show ?thesis by blast
    qed
  qed
qed

text \<open>
  Claim C1 (amended). For a trace whose function names are nothing but keys of a plain
  object (no array index, no property of \<^verbatim>\<open>Object.prototype\<close>; the identifiers of user
  functions other than the likes of \<^verbatim>\<open>toString\<close>), \<open>totalFunctionCalls\<close> is the number of
  calls and \<open>uniqueFunctions\<close> the number of distinct names. If no name has a positive
  cumulative duration, \<open>mostExpensiveFunction\<close> is null and its time 0. Otherwise it is the
  name \<open>n\<close> of maximum cumulative duration that was seen first: every name seen before it
  has a strictly smaller cumulative duration, every name seen after it at most the same.
\<close>

theorem summary_most_expensive:
  assumes plain: "\<forall>c \<in> set (functionCalls metrics). plain_name (fc_name c)"
  shows "totalFunctionCalls (calculateSummaryMetrics metrics) = length (functionCalls metrics)
     \<and> uniqueFunctions (calculateSummaryMetrics metrics) = card (fc_name ` set (functionCalls metrics))
     \<and> ((mostExpensiveFunction (calculateSummaryMetrics metrics) = None
          \<and> mostExpensiveFunctionTime (calculateSummaryMetrics metrics) = 0
          \<and> (\<forall>c \<in> set (functionCalls metrics). total_of (fc_name c) (functionCalls metrics) \<le> 0))
        \<or> (\<exists>pre n post. new_Set (map fc_name (functionCalls metrics)) = pre @ n # post
          \<and> mostExpensiveFunction (calculateSummaryMetrics metrics) = Some n
          \<and> mostExpensiveFunctionTime (calculateSummaryMetrics metrics)
               = total_of n (functionCalls metrics)
          \<and> 0 < total_of n (functionCalls metrics)
          \<and> (\<forall>x \<in> set pre. total_of x (functionCalls metrics) < total_of n (functionCalls metrics))
          \<and> (\<forall>x \<in> set post. total_of x (functionCalls metrics) \<le> total_of n (functionCalls metrics))))"
proof -
  let ?calls = "functionCalls metrics"
  let ?ns = "new_Set (map fc_name ?calls)"
  let ?S = "calculateSummaryMetrics metrics"
  have ft: "fold functionTimes_step ?calls [] = map (\<lambda>n. (n, Num (total_of n ?calls))) ?ns"
    by (rule times_canonical[OF plain])
  have "\<forall>p \<in> set (map (\<lambda>n. (n, Num (total_of n ?calls))) ?ns). \<not> is_array_index_key (fst p)"
    using plain by (auto simp: new_Set_set plain_name_def)
  then have ent: "object_entries (fold functionTimes_step ?calls [])
      = map (\<lambda>n. (n, Num (total_of n ?calls))) ?ns"
    unfolding ft by (rule object_entries_plain)
  have best: "(mostExpensiveFunction ?S, mostExpensiveFunctionTime ?S)
      = fold select_step (map (\<lambda>n. (n, Num (total_of n ?calls))) ?ns) (None, 0)"
    by (simp add: calculateSummaryMetrics_def Let_def ent)
  have cnt: "totalFunctionCalls ?S = length ?calls"
    by (simp add: calculateSummaryMetrics_def Let_def)
  have uniq: "uniqueFunctions ?S = card (fc_name ` set ?calls)"
    by (simp add: calculateSummaryMetrics_def Let_def length_new_Set)
  from select_fold[of "\<lambda>n. total_of n ?calls" ?ns None 0]
  have "(mostExpensiveFunction ?S = None \<and> mostExpensiveFunctionTime ?S = 0
          \<and> (\<forall>c \<in> set ?calls. total_of (fc_name c) ?calls \<le> 0))
        \<or> (\<exists>pre n post. ?ns = pre @ n # post
          \<and> mostExpensiveFunction ?S = Some n
          \<and> mostExpensiveFunctionTime ?S = total_of n ?calls
          \<and> 0 < total_of n ?calls
          \<and> (\<forall>x \<in> set pre. total_of x ?calls < total_of n ?calls)
          \<and> (\<forall>x \<in> set post. total_of x ?calls \<le> total_of n ?calls))"
  proof
    assume a: "fold select_step (map (\<lambda>n. (n, Num (total_of n ?calls))) ?ns) (None, 0) = (None, 0)
       \<and> (\<forall>x \<in> set ?ns. total_of x ?calls \<le> 0)"
    with best have "mostExpensiveFunction ?S = None" "mostExpensiveFunctionTime ?S = 0"
      by simp_all
    moreover from a have "\<forall>c \<in> set ?calls. total_of (fc_name c) ?calls \<le> 0"
      by (simp add: new_Set_set)
    ultimately show ?thesis by blast
  next
    assume "\<exists>pre n post. ?ns = pre @ n # post
        \<and> fold select_step (map (\<lambda>n. (n, Num (total_of n ?calls))) ?ns) (None, 0)
             = (Some n, total_of n ?calls)
        \<and> 0 < total_of n ?calls \<and> (\<forall>x \<in> set pre. total_of x ?calls < total_of n ?calls)
        \<and> (\<forall>x \<in> set post. total_of x ?calls \<le> total_of n ?calls)"
    then obtain pre n post where *: "?ns = pre @ n # post"
        "fold select_step (map (\<lambda>n. (n, Num (total_of n ?calls))) ?ns) (None, 0)
             = (Some n, total_of n ?calls)"
        "0 < total_of n ?calls" "\<forall>x \<in> set pre. total_of x ?calls < total_of n ?calls"
        "\<forall>x \<in> set post. total_of x ?calls \<le> total_of n ?calls"
      by blast
    from *(2) best have "mostExpensiveFunction ?S = Some n"
      "mostExpensiveFunctionTime ?S = total_of n ?calls"
      by simp_all
    with * show ?thesis by blast
  qed
  with cnt uniq show ?thesis by blast
qed


lemma plain_f: "plain_name ''f''" "plain_name ''g''"
  by (simp_all add: plain_name_def is_array_index_key_def is_digit_def object_prototype_names_def)

text \<open>
  Claim C1, as the code has it. \<open>maxTime\<close> starts at 0 and is replaced only by a strictly
  greater time: a trace whose only function has cumulative duration 0 (a call shorter than
  the clock's millisecond) gets no \<open>mostExpensiveFunction\<close>.
\<close>

theorem zero_duration_counterexample:
  "calculateSummaryMetrics
     \<lparr>rm_executionTime = 3, memoryUsage = [],
      functionCalls = [\<lparr>fc_timestamp = 1, fc_name = ''f'', fc_caller = Some ''global'',
                        fc_args = [], fc_duration = 0, fc_endTimestamp = 1\<rparr>],
      variableStates = [], executionFlow = []\<rparr>
   = \<lparr>executionTime = 3, peakMemory = 0, totalFunctionCalls = 1, uniqueFunctions = 1,
    mostExpensiveFunction = None, mostExpensiveFunctionTime = 0\<rparr>"
  by (simp add: calculateSummaryMetrics_def Let_def
      functionTimes_step_def read_prop_def write_prop_def falsy_slot_def add_duration_def
      object_prototype_names_def object_entries_def is_array_index_key_def is_digit_def
      select_step_def new_Set_def set_add_def)

text \<open>
  Why the names are restricted. A function called \<^verbatim>\<open>toString\<close> finds the property of
  \<^verbatim>\<open>Object.prototype\<close> in \<^verbatim>\<open>functionTimes\<close>; its time never becomes a number and it is never
  selected. A name that is an array index is listed before the names seen earlier.
\<close>

lemma inherited_name_example:
  "calculateSummaryMetrics
     \<lparr>rm_executionTime = 3, memoryUsage = [],
      functionCalls = [\<lparr>fc_timestamp = 1, fc_name = ''toString'', fc_caller = Some ''global'',
                        fc_args = [], fc_duration = 10, fc_endTimestamp = 11\<rparr>],
      variableStates = [], executionFlow = []\<rparr>
   = \<lparr>executionTime = 3, peakMemory = 0, totalFunctionCalls = 1, uniqueFunctions = 1,
    mostExpensiveFunction = None, mostExpensiveFunctionTime = 0\<rparr>"
  by (simp add: calculateSummaryMetrics_def Let_def
      functionTimes_step_def read_prop_def write_prop_def falsy_slot_def add_duration_def
      object_prototype_names_def object_entries_def is_array_index_key_def is_digit_def
      select_step_def new_Set_def set_add_def)

lemma array_index_name_example:
  "mostExpensiveFunction (calculateSummaryMetrics
     \<lparr>rm_executionTime = 3, memoryUsage = [],
      functionCalls = [\<lparr>fc_timestamp = 1, fc_name = ''f'', fc_caller = None,
                        fc_args = [], fc_duration = 10, fc_endTimestamp = 11\<rparr>,
                       \<lparr>fc_timestamp = 12, fc_name = ''7'', fc_caller = None,
                        fc_args = [], fc_duration = 10, fc_endTimestamp = 22\<rparr>],
      variableStates = [], executionFlow = []\<rparr>) = Some ''7''"
  by (simp add: calculateSummaryMetrics_def Let_def
      functionTimes_step_def read_prop_def write_prop_def falsy_slot_def add_duration_def
      object_prototype_names_def object_entries_def is_array_index_key_def is_digit_def
      select_step_def new_Set_def set_add_def decimal_value_def)

text \<open>The aggregation example of the claim, derived from the theorem.\<close>

theorem summary_most_expensive_witness:
  "list_all (\<lambda>c. plain_name (fc_name c)) (functionCalls trace_f_g)
   \<and> map (\<lambda>c. (fc_name c, fc_duration c)) (functionCalls trace_f_g)
        = [(''f'', 10), (''g'', 5), (''f'', 20), (''g'', 5), (''f'', 30)]
   \<and> totalFunctionCalls (calculateSummaryMetrics trace_f_g) = 5
   \<and> uniqueFunctions (calculateSummaryMetrics trace_f_g) = 2
   \<and> mostExpensiveFunction (calculateSummaryMetrics trace_f_g) = Some ''f''
   \<and> mostExpensiveFunctionTime (calculateSummaryMetrics trace_f_g) = 60
   \<and> total_of ''f'' (functionCalls trace_f_g) = 60"
proof -
  let ?calls = "functionCalls trace_f_g"
  let ?S = "calculateSummaryMetrics trace_f_g"
  have calls: "map (\<lambda>c. (fc_name c, fc_duration c)) ?calls
        = [(''f'', 10), (''g'', 5), (''f'', 20), (''g'', 5), (''f'', 30)]"
    by (simp add: trace_f_g_def a_call_def)
  have pl: "list_all (\<lambda>c. plain_name (fc_name c)) ?calls"
    by (simp add: trace_f_g_def a_call_def plain_f)
  then have plain: "\<forall>c \<in> set ?calls. plain_name (fc_name c)"
    by (simp add: list_all_iff)
  have names: "new_Set (map fc_name ?calls) = [''f'', ''g'']"
    by (simp add: trace_f_g_def a_call_def new_Set_def set_add_def)
  have tf: "total_of ''f'' ?calls = 60" and tg: "total_of ''g'' ?calls = 10"
    by (simp_all add: total_of_def trace_f_g_def a_call_def)
  have card: "card (fc_name ` set ?calls) = 2"
    using length_new_Set[of "map fc_name ?calls"] names by simp
  have fin: "a_call ''f'' None 10 \<in> set ?calls"
    by (simp add: trace_f_g_def)
  from summary_most_expensive[OF plain] have
    cnt: "totalFunctionCalls ?S = length ?calls"
    and uniq: "uniqueFunctions ?S = card (fc_name ` set ?calls)"
    and sel: "(mostExpensiveFunction ?S = None \<and> mostExpensiveFunctionTime ?S = 0
          \<and> (\<forall>c \<in> set ?calls. total_of (fc_name c) ?calls \<le> 0))
        \<or> (\<exists>pre n post. new_Set (map fc_name ?calls) = pre @ n # post
          \<and> mostExpensiveFunction ?S = Some n
          \<and> mostExpensiveFunctionTime ?S = total_of n ?calls
          \<and> 0 < total_of n ?calls
          \<and> (\<forall>x \<in> set pre. total_of x ?calls < total_of n ?calls)
          \<and> (\<forall>x \<in> set post. total_of x ?calls \<le> total_of n ?calls))"
    by blast+
  from sel have "mostExpensiveFunction ?S = Some ''f'' \<and> mostExpensiveFunctionTime ?S = 60"
  proof
    assume "mostExpensiveFunction ?S = None \<and> mostExpensiveFunctionTime ?S = 0
          \<and> (\<forall>c \<in> set ?calls. total_of (fc_name c) ?calls \<le> 0)"
    with fin have "total_of (fc_name (a_call ''f'' None 10)) ?calls \<le> 0" by blast
    with tf show ?thesis by (simp add: a_call_def)
  next
    assume "\<exists>pre n post. new_Set (map fc_name ?calls) = pre @ n # post
          \<and> mostExpensiveFunction ?S = Some n
          \<and> mostExpensiveFunctionTime ?S = total_of n ?calls
          \<and> 0 < total_of n ?calls
          \<and> (\<forall>x \<in> set pre. total_of x ?calls < total_of n ?calls)
          \<and> (\<forall>x \<in> set post. total_of x ?calls \<le> total_of n ?calls)"
    then obtain pre n post where *: "[''f'', ''g''] = pre @ n # post"
       "mostExpensiveFunction ?S = Some n" "mostExpensiveFunctionTime ?S = total_of n ?calls"
       "\<forall>x \<in> set pre. total_of x ?calls < total_of n ?calls"
       "\<forall>x \<in> set post. total_of x ?calls \<le> total_of n ?calls"
      unfolding names by blast
    from *(1) have "(pre = [] \<and> n = ''f'' \<and> post = [''g'']) \<or> (pre = [''f''] \<and> n = ''g'' \<and> post = [])"
      by (auto simp: Cons_eq_append_conv)
    then show ?thesis
    proof
      assume "pre = [] \<and> n = ''f'' \<and> post = [''g'']"
      with * tf show ?thesis by simp
    next
      assume "pre = [''f''] \<and> n = ''g'' \<and> post = []"
      with *(4) tf tg show ?thesis by simp
    qed
  qed
  with calls pl cnt uniq card tf show ?thesis by (simp add: trace_f_g_def)
qed



section \<open>The call graph\<close>


lemma arrow_prefix_aux:
  assumes "us @ ''->'' @ t1 = ''->'' @ t2" and "\<not> sublist ''->'' (s @ us)"
  shows "us = []"
proof (cases us)
  case Nil
  then show ?thesis .
next
  case (Cons a us')
  note ua = Cons
  show ?thesis
  proof (cases us')
    case Nil
    with ua assms(1) show ?thesis by simp
  next
    case (Cons b us'')
    with ua assms(1) have "us = ''->'' @ us''" by simp
    then have "sublist ''->'' (s @ us)"
      unfolding sublist_def by (metis append.assoc)
    with assms(2) show ?thesis by simp
  qed
qed

lemma linkId_inject:
  assumes "linkId s1 t1 = linkId s2 t2"
    and "\<not> sublist ''->'' s1" and "\<not> sublist ''->'' s2"
  shows "s1 = s2 \<and> t1 = t2"
proof -
  from assms(1) have eq: "s1 @ (''->'' @ t1) = s2 @ (''->'' @ t2)"
    by (simp add: linkId_def)
  then obtain us where "(s1 = s2 @ us \<and> us @ (''->'' @ t1) = ''->'' @ t2)
      \<or> (s1 @ us = s2 \<and> ''->'' @ t1 = us @ (''->'' @ t2))"
    unfolding append_eq_append_conv2 by blast
  then have "s1 = s2"
  proof
    assume a: "s1 = s2 @ us \<and> us @ (''->'' @ t1) = ''->'' @ t2"
    with assms(2) have "us = []" using arrow_prefix_aux[of us t1 t2 s2] by simp
    with a show ?thesis by simp
  next
    assume a: "s1 @ us = s2 \<and> ''->'' @ t1 = us @ (''->'' @ t2)"
    with assms(3) have "us = []" using arrow_prefix_aux[of us t2 t1 s1] by simp
    with a show ?thesis by simp
  qed
  with eq show ?thesis by simp
qed



lemma calls_on_snoc:
  "calls_on k (calls @ [c]) = calls_on k calls @ (if call_linkId c = k then [c] else [])"
  by (simp add: calls_on_def)

lemma calls_on_empty: "calls_on k calls = [] \<longleftrightarrow> k \<notin> call_linkId ` set calls"
  by (auto simp: calls_on_def filter_empty_conv)

lemma entry_of_other:
  "call_linkId c \<noteq> k \<Longrightarrow> entry_of k (calls @ [c]) = entry_of k calls"
  by (simp add: entry_of_def calls_on_snoc)

lemma entry_of_new:
  "call_linkId c \<notin> call_linkId ` set calls \<Longrightarrow>
   entry_of (call_linkId c) (calls @ [c]) =
     \<lparr>le_source = call_source c, le_target = fc_name c, le_count = 1,
      le_totalDuration = fc_duration c\<rparr>"
  using calls_on_empty[of "call_linkId c" calls]
  by (simp add: entry_of_def calls_on_snoc)

lemma entry_of_again:
  "call_linkId c \<in> call_linkId ` set calls \<Longrightarrow>
   entry_of (call_linkId c) (calls @ [c]) =
     (entry_of (call_linkId c) calls)
       \<lparr>le_count := le_count (entry_of (call_linkId c) calls) + 1,
        le_totalDuration := le_totalDuration (entry_of (call_linkId c) calls) + fc_duration c\<rparr>"
  using calls_on_empty[of "call_linkId c" calls]
  by (simp add: entry_of_def calls_on_snoc)

lemma graph_step:
  assumes ok: "graph_ok calls acc"
  shows "graph_ok (calls @ [c]) (callGraph_step c acc)"
proof -
  let ?k = "call_linkId c"
  from ok have ns: "fst acc = new_Set (concat (map (\<lambda>c. [call_source c, fc_name c]) calls))"
    and keys: "map fst (snd acc) = new_Set (map call_linkId calls)"
    and vals: "\<And>k. map_of (snd acc) k =
           (if k \<in> call_linkId ` set calls then Some (entry_of k calls) else None)"
    by (simp_all add: graph_ok_def)
  have step: "snd (callGraph_step c acc) = AList.update ?k (entry_of ?k (calls @ [c])) (snd acc)"
  proof (cases "?k \<in> call_linkId ` set calls")
    case True
    then show ?thesis
      using vals[of ?k] entry_of_again[OF True]
      by (simp add: callGraph_step_def Let_def call_linkId_def)
  next
    case False
    then show ?thesis
      using vals[of ?k] entry_of_new[OF False]
      by (simp add: callGraph_step_def Let_def call_linkId_def)
  qed
  have n: "fst (callGraph_step c acc)
      = new_Set (concat (map (\<lambda>c. [call_source c, fc_name c]) (calls @ [c])))"
    by (simp add: callGraph_step_def Let_def ns new_Set_def)
  have k: "map fst (snd (callGraph_step c acc)) = new_Set (map call_linkId (calls @ [c]))"
    unfolding step by (simp add: update_keys_set_add keys new_Set_snoc)
  have v: "map_of (snd (callGraph_step c acc)) k =
           (if k \<in> call_linkId ` set (calls @ [c]) then Some (entry_of k (calls @ [c])) else None)" for k
    unfolding step by (auto simp add: update_conv' vals entry_of_other)
  from n k v show ?thesis unfolding graph_ok_def by blast
qed

lemma graph_fold: "graph_ok calls (fold callGraph_step calls ([], []))"
proof (induction calls rule: rev_induct)
  case Nil
  show ?case by (simp add: graph_ok_def new_Set_def)
next
  case (snoc c calls)
  then show ?case by (simp add: graph_step)
qed

lemma graph_entries:
  "snd (fold callGraph_step calls ([], []))
     = map (\<lambda>k. (k, entry_of k calls)) (new_Set (map call_linkId calls))"
proof -
  let ?m = "snd (fold callGraph_step calls ([], []))"
  from graph_fold[of calls] have keys: "map fst ?m = new_Set (map call_linkId calls)"
    and vals: "\<And>k. map_of ?m k =
           (if k \<in> call_linkId ` set calls then Some (entry_of k calls) else None)"
    by (simp_all add: graph_ok_def)
  have d: "distinct (map fst ?m)" by (simp add: keys new_Set_distinct)
  have "?m = map (\<lambda>k. (k, the (map_of ?m k))) (new_Set (map call_linkId calls))"
    using alist_canonical[OF d] keys by simp
  also have "\<dots> = map (\<lambda>k. (k, entry_of k calls)) (new_Set (map call_linkId calls))"
    by (rule map_cong) (auto simp: vals new_Set_set)
  finally show ?thesis .
qed

lemma generateCallGraph_links:
  "links (generateCallGraph calls)
     = map (\<lambda>k. link_of_entry (entry_of k calls)) (new_Set (map call_linkId calls))"
  by (simp add: generateCallGraph_def Let_def graph_entries comp_def)

lemma generateCallGraph_nodes:
  "nodes (generateCallGraph calls)
     = new_Set (concat (map (\<lambda>c. [call_source c, fc_name c]) calls))"
  using graph_fold[of calls] by (simp add: generateCallGraph_def Let_def graph_ok_def)

lemma hd_calls_on:
  assumes "k \<in> call_linkId ` set calls"
  shows "hd (calls_on k calls) \<in> set calls \<and> call_linkId (hd (calls_on k calls)) = k"
proof -
  from assms have ne: "calls_on k calls \<noteq> []" by (simp add: calls_on_empty)
  then have "hd (calls_on k calls) \<in> set (calls_on k calls)" by simp
  then show ?thesis by (simp add: calls_on_def)
qed

lemma link_key:
  assumes "k \<in> call_linkId ` set calls"
  shows "linkId (source (link_of_entry (entry_of k calls))) (target (link_of_entry (entry_of k calls))) = k"
  using hd_calls_on[OF assms] by (simp add: link_of_entry_def entry_of_def call_linkId_def)

lemma links_ids:
  "map (\<lambda>l. linkId (source l) (target l)) (links (generateCallGraph calls))
     = new_Set (map call_linkId calls)"
proof -
  let ?ks = "new_Set (map call_linkId calls)"
  let ?lk = "\<lambda>k. link_of_entry (entry_of k calls)"
  have "map (\<lambda>l. linkId (source l) (target l)) (links (generateCallGraph calls))
        = map (\<lambda>k. linkId (source (?lk k)) (target (?lk k))) ?ks"
    by (simp add: generateCallGraph_links comp_def)
  also have "\<dots> = map (\<lambda>k. k) ?ks"
    by (rule map_cong) (simp_all add: new_Set_set link_key)
  finally show ?thesis by simp
qed

lemma links_each:
  assumes "l \<in> set (links (generateCallGraph calls))"
  shows "(\<exists>c \<in> set calls. source l = call_source c \<and> target l = fc_name c)
        \<and> count l = length (calls_on (linkId (source l) (target l)) calls)
        \<and> 0 < count l
        \<and> averageDuration l =
            sum_list (map fc_duration (calls_on (linkId (source l) (target l)) calls))
              / real (count l)"
proof -
  from assms obtain k where k: "k \<in> call_linkId ` set calls"
    and l: "l = link_of_entry (entry_of k calls)"
    by (auto simp: generateCallGraph_links new_Set_set)
  from link_key[OF k] l have key: "linkId (source l) (target l) = k" by simp
  from hd_calls_on[OF k] have hd: "hd (calls_on k calls) \<in> set calls" by simp
  from k have ne: "calls_on k calls \<noteq> []" by (simp add: calls_on_empty)
  have src: "source l = call_source (hd (calls_on k calls))"
    and tgt: "target l = fc_name (hd (calls_on k calls))"
    by (simp_all add: l link_of_entry_def entry_of_def)
  from hd src tgt have a: "\<exists>c \<in> set calls. source l = call_source c \<and> target l = fc_name c"
    by blast
  have b: "count l = length (calls_on k calls)"
    by (simp add: l link_of_entry_def entry_of_def)
  have c: "0 < count l" using ne b by simp
  have d: "averageDuration l = sum_list (map fc_duration (calls_on k calls)) / real (count l)"
    by (simp add: l link_of_entry_def entry_of_def)
  from a b c d show ?thesis unfolding key by simp
qed

lemma distinct_map_inner: "distinct (map (\<lambda>x. f (g x)) xs) \<Longrightarrow> distinct (map g xs)"
  by (induction xs) auto

lemma links_pairs:
  assumes noarrow: "\<forall>c \<in> set calls. \<not> sublist ''->'' (call_source c)"
  shows "distinct (map (\<lambda>l. (source l, target l)) (links (generateCallGraph calls)))"
    and "\<forall>l \<in> set (links (generateCallGraph calls)).
              calls_on (linkId (source l) (target l)) calls
                = filter (\<lambda>c. call_source c = source l \<and> fc_name c = target l) calls"
proof -
  let ?G = "generateCallGraph calls"
  have "distinct (map (\<lambda>l. linkId (source l) (target l)) (links ?G))"
    unfolding links_ids by (rule new_Set_distinct)
  then have "distinct (map (\<lambda>l. (\<lambda>p. linkId (fst p) (snd p)) (source l, target l)) (links ?G))"
    by simp
  then show "distinct (map (\<lambda>l. (source l, target l)) (links ?G))"
    by (rule distinct_map_inner)
  show "\<forall>l \<in> set (links ?G).
              calls_on (linkId (source l) (target l)) calls
                = filter (\<lambda>c. call_source c = source l \<and> fc_name c = target l) calls"
  proof
    fix l assume lin: "l \<in> set (links ?G)"
    from links_each[OF lin] obtain c0 where c0: "c0 \<in> set calls" "source l = call_source c0"
      by blast
    with noarrow have ls: "\<not> sublist ''->'' (source l)" by simp
    have "(call_linkId c = linkId (source l) (target l))
           = (call_source c = source l \<and> fc_name c = target l)" if "c \<in> set calls" for c
    proof -
      from that noarrow have cs: "\<not> sublist ''->'' (call_source c)" by simp
      show ?thesis
      proof
        assume "call_linkId c = linkId (source l) (target l)"
        then have "linkId (call_source c) (fc_name c) = linkId (source l) (target l)"
          by (simp add: call_linkId_def)
        from linkId_inject[OF this cs ls] show "call_source c = source l \<and> fc_name c = target l" .
      next
        assume "call_source c = source l \<and> fc_name c = target l"
        then show "call_linkId c = linkId (source l) (target l)"
          by (simp add: call_linkId_def)
      qed
    qed
    then show "calls_on (linkId (source l) (target l)) calls
                = filter (\<lambda>c. call_source c = source l \<and> fc_name c = target l) calls"
      unfolding calls_on_def by (intro filter_cong) simp_all
  qed
qed

text \<open>
  Claim C8 (amended). The nodes of the call graph are the distinct sources and targets of
  the calls, a source being the caller, or \<^verbatim>\<open>"global"\<close> for a call without one. There is one
  link per link identifier \<^verbatim>\<open>source->target\<close>, in order of first appearance; it carries
  the source and target of a call, the number of calls on it (at least 1) and, as
  \<open>averageDuration\<close>, their cumulative duration divided by that number. When no source
  contains \<^verbatim>\<open>->\<close>, the identifier stands for the pair: the links are distinct by
  (source, target) and the calls on a link are the calls with that source and target.
\<close>

theorem call_graph_shape:
  "set (nodes (generateCallGraph calls)) = call_source ` set calls \<union> fc_name ` set calls
   \<and> distinct (nodes (generateCallGraph calls))
   \<and> map (\<lambda>l. linkId (source l) (target l)) (links (generateCallGraph calls))
        = new_Set (map call_linkId calls)
   \<and> (\<forall>l \<in> set (links (generateCallGraph calls)).
        (\<exists>c \<in> set calls. source l = call_source c \<and> target l = fc_name c)
        \<and> count l = length (calls_on (linkId (source l) (target l)) calls)
        \<and> 0 < count l
        \<and> averageDuration l =
            sum_list (map fc_duration (calls_on (linkId (source l) (target l)) calls))
              / real (count l))
   \<and> ((\<forall>c \<in> set calls. \<not> sublist ''->'' (call_source c)) \<longrightarrow>
        distinct (map (\<lambda>l. (source l, target l)) (links (generateCallGraph calls)))
        \<and> (\<forall>l \<in> set (links (generateCallGraph calls)).
              calls_on (linkId (source l) (target l)) calls
                = filter (\<lambda>c. call_source c = source l \<and> fc_name c = target l) calls))"
proof (intro conjI impI ballI)
  show "set (nodes (generateCallGraph calls)) = call_source ` set calls \<union> fc_name ` set calls"
    by (auto simp: generateCallGraph_nodes new_Set_set)
  show "distinct (nodes (generateCallGraph calls))"
    by (simp add: generateCallGraph_nodes new_Set_distinct)
  show "map (\<lambda>l. linkId (source l) (target l)) (links (generateCallGraph calls))
        = new_Set (map call_linkId calls)"
    by (rule links_ids)
next
  fix l assume "l \<in> set (links (generateCallGraph calls))"
  note e = links_each[OF this]
  from e show "\<exists>c \<in> set calls. source l = call_source c \<and> target l = fc_name c"
    by (rule conjunct1)
  from e show "count l = length (calls_on (linkId (source l) (target l)) calls)"
    by (elim conjE)
  from e show "0 < count l"
    by (elim conjE)
  from e show "averageDuration l =
            sum_list (map fc_duration (calls_on (linkId (source l) (target l)) calls))
              / real (count l)"
    by (elim conjE)
next
  assume na: "\<forall>c \<in> set calls. \<not> sublist ''->'' (call_source c)"
  from links_pairs(1)[OF na]
  show "distinct (map (\<lambda>l. (source l, target l)) (links (generateCallGraph calls)))" .
  fix l assume "l \<in> set (links (generateCallGraph calls))"
  with links_pairs(2)[OF na]
  show "calls_on (linkId (source l) (target l)) calls
                = filter (\<lambda>c. call_source c = source l \<and> fc_name c = target l) calls"
    by blast
qed


text \<open>
  Claim C8, as the code has it. \<^verbatim>\<open>"global"\<close> becomes a node only as the source of a call
  without caller: a trace whose calls all have one has no such node. A link carries
  \<open>count\<close> and \<open>averageDuration\<close>; the cumulative duration stays in the map.
\<close>

theorem no_global_node_counterexample:
  "generateCallGraph
     [\<lparr>fc_timestamp = 1, fc_name = ''g'', fc_caller = Some ''f'', fc_args = [],
       fc_duration = 10, fc_endTimestamp = 11\<rparr>]
   = \<lparr>nodes = [''f'', ''g''],
      links = [\<lparr>source = ''f'', target = ''g'', count = 1, averageDuration = 10\<rparr>]\<rparr>"
  by (simp add: generateCallGraph_def callGraph_step_def call_source_def linkId_def
      set_add_def link_of_entry_def Let_def)



text \<open>
  Why the sources are restricted. Two pairs with the same link identifier fall on one
  link.
\<close>

lemma link_identifier_collision_example:
  "generateCallGraph
     [\<lparr>fc_timestamp = 1, fc_name = ''c'', fc_caller = Some ''a->b'', fc_args = [],
       fc_duration = 1, fc_endTimestamp = 2\<rparr>,
      \<lparr>fc_timestamp = 3, fc_name = ''b->c'', fc_caller = Some ''a'', fc_args = [],
       fc_duration = 3, fc_endTimestamp = 6\<rparr>]
   = \<lparr>nodes = [''a->b'', ''c'', ''a'', ''b->c''],
      links = [\<lparr>source = ''a->b'', target = ''c'', count = 2, averageDuration = 2\<rparr>]\<rparr>"
  by (simp add: generateCallGraph_def callGraph_step_def call_source_def linkId_def
      set_add_def link_of_entry_def Let_def)

theorem call_graph_shape_witness:
  "list_all (\<lambda>c. \<not> sublist ''->'' (call_source c)) (functionCalls trace_f_g)
   \<and> generateCallGraph (functionCalls trace_f_g) =
       \<lparr>nodes = [''global'', ''f'', ''g''],
        links = [\<lparr>source = ''global'', target = ''f'', count = 3, averageDuration = 20\<rparr>,
                 \<lparr>source = ''f'', target = ''g'', count = 2, averageDuration = 5\<rparr>]\<rparr>
   \<and> length (filter (\<lambda>c. call_source c = ''global'' \<and> fc_name c = ''f'')
         (functionCalls trace_f_g)) = 3
   \<and> sum_list (map fc_duration (filter (\<lambda>c. call_source c = ''global'' \<and> fc_name c = ''f'')
         (functionCalls trace_f_g))) / 3 = 20
   \<and> distinct (map (\<lambda>l. (source l, target l)) (links (generateCallGraph (functionCalls trace_f_g))))"
proof -
  let ?calls = "functionCalls trace_f_g"
  let ?l = "\<lparr>source = ''global'', target = ''f'', count = 3, averageDuration = 20\<rparr>"
  have g: "generateCallGraph ?calls =
       \<lparr>nodes = [''global'', ''f'', ''g''],
        links = [?l, \<lparr>source = ''f'', target = ''g'', count = 2, averageDuration = 5\<rparr>]\<rparr>"
    by (simp add: generateCallGraph_def callGraph_step_def call_source_def linkId_def
      set_add_def link_of_entry_def Let_def trace_f_g_def a_call_def)
  have na: "list_all (\<lambda>c. \<not> sublist ''->'' (call_source c)) ?calls"
    by (simp add: trace_f_g_def a_call_def call_source_def sublist_Cons_right)
  then have na': "\<forall>c \<in> set ?calls. \<not> sublist ''->'' (call_source c)"
    by (simp add: list_all_iff)
  have lin: "?l \<in> set (links (generateCallGraph ?calls))"
    unfolding g by simp
  from call_graph_shape[of ?calls] na' lin have
    d: "distinct (map (\<lambda>l. (source l, target l)) (links (generateCallGraph ?calls)))"
    and c: "count ?l = length (calls_on (linkId (source ?l) (target ?l)) ?calls)"
    and a: "averageDuration ?l =
            sum_list (map fc_duration (calls_on (linkId (source ?l) (target ?l)) ?calls))
              / real (count ?l)"
    and f: "calls_on (linkId (source ?l) (target ?l)) ?calls
                = filter (\<lambda>c. call_source c = source ?l \<and> fc_name c = target ?l) ?calls"
    by blast+
  from c f have c': "length (filter (\<lambda>c. call_source c = ''global'' \<and> fc_name c = ''f'') ?calls) = 3"
    by simp
  from a f have a': "sum_list (map fc_duration
      (filter (\<lambda>c. call_source c = ''global'' \<and> fc_name c = ''f'') ?calls)) / 3 = 20"
    by simp
  from na g c' a' d show ?thesis by blast
qed



section \<open>The line heatmap\<close>

































text \<open>
  The example of the claim. The server's \<^verbatim>\<open>processExecutionFlow\<close> returns both lines, in
  ascending order; the heatmap keeps line 7 only.
\<close>

lemma processExecutionFlow_lines_4_7:
  "map (\<lambda>g. (lx_line g, lx_executionCount g, lx_totalTime g, lx_averageTime g))
     (processExecutionFlow trace_lines_4_7) = [(4, 1, 1, 1), (7, 3, 5, 5 / 3)]"
  by (simp add: processExecutionFlow_def trace_lines_4_7_def a_step_def Let_def
     lineExecutions_step_def object_values_nat_def line_execution.extend_def)




section \<open>The rewrite of reassignments\<close>


lemma tracked_names_callback:
  "tracked_names (Replaced (reassignment_callback whole name v) # segs) =
     (if name = ''i'' \<or> name = ''j'' \<or> name = ''k'' then tracked_names segs
      else name # tracked_names segs)"
  by (simp add: reassignment_callback_def)

lemma tracked_scan:
  "n \<in> set (tracked_names (replace_scan match_assignment reassignment_callback inside code))
   \<Longrightarrow> n \<noteq> ''i'' \<and> n \<noteq> ''j'' \<and> n \<noteq> ''k''"
proof (induction code arbitrary: inside)
  case Nil
  then show ?case by simp
next
  case (Cons c cs)
  show ?case
  proof (cases inside)
    case (Suc inside')
    with Cons.prems have "n \<in> set (tracked_names
        (replace_scan match_assignment reassignment_callback inside' cs))"
      by simp
    then show ?thesis by (rule Cons.IH)
  next
    case 0
    note zero = 0
    show ?thesis
    proof (cases "match_assignment (c # cs)")
      case None
      with Cons.prems zero have "n \<in> set (tracked_names
          (replace_scan match_assignment reassignment_callback 0 cs))"
        by simp
      then show ?thesis by (rule Cons.IH)
    next
      case (Some m)
      obtain name v len where m: "m = (name, v, len)" by (cases m)
      from Cons.prems zero Some m
      have mem: "n \<in> set (tracked_names
          (Replaced (reassignment_callback (take len (c # cs)) name v)
            # replace_scan match_assignment reassignment_callback (len - 1) cs))"
        by simp
      show ?thesis
      proof (cases "name = ''i'' \<or> name = ''j'' \<or> name = ''k''")
        case True
        with mem have "n \<in> set (tracked_names
            (replace_scan match_assignment reassignment_callback (len - 1) cs))"
          by (simp only: tracked_names_callback if_True)
        then show ?thesis by (rule Cons.IH)
      next
        case False
        with mem have "n = name \<or> n \<in> set (tracked_names
            (replace_scan match_assignment reassignment_callback (len - 1) cs))"
          by (simp only: tracked_names_callback if_False list.set insert_iff)
        then show ?thesis
        proof
          assume "n = name"
          with False show ?thesis by simp
        next
          assume "n \<in> set (tracked_names
            (replace_scan match_assignment reassignment_callback (len - 1) cs))"
          then show ?thesis by (rule Cons.IH)
        qed
      qed
    qed
  qed
qed

text \<open>
  Claim C10. Whatever the text of the program, a name for which the rewrite of plain
  reassignments injects a call of \<^verbatim>\<open>trackVariable\<close> is none of \<open>i\<close>, \<open>j\<close>, \<open>k\<close>. (The rewrites
  of \<^verbatim>\<open>let\<close>, \<^verbatim>\<open>const\<close> and \<^verbatim>\<open>var\<close> declarations have no such exception.)
\<close>

theorem reassignment_skips_loop_counters:
  "n \<in> set (tracked_names (reassignment_segments code))
   \<Longrightarrow> n \<noteq> ''i'' \<and> n \<noteq> ''j'' \<and> n \<noteq> ''k''"
  unfolding reassignment_segments_def by (rule tracked_scan)

theorem reassignment_skips_loop_counters_witness:
  "reassignment_segments ''i = 0; x = i;'' =
     [Replaced (Unchanged ''i = 0;''), Copied CHR '' '', Replaced (Tracked None ''x'' ''i'')]
   \<and> ''x'' \<in> set (tracked_names (reassignment_segments ''i = 0; x = i;''))
   \<and> ''x'' \<noteq> ''i'' \<and> ''x'' \<noteq> ''j'' \<and> ''x'' \<noteq> ''k''"
proof -
  have segs: "reassignment_segments ''i = 0; x = i;'' =
     [Replaced (Unchanged ''i = 0;''), Copied CHR '' '', Replaced (Tracked None ''x'' ''i'')]"
    by (simp add: reassignment_segments_def match_assignment_def ident_start_def ident_char_def
      is_space_def reassignment_callback_def)
  then have mem: "''x'' \<in> set (tracked_names (reassignment_segments ''i = 0; x = i;''))"
    by simp
  from reassignment_skips_loop_counters[OF mem] segs mem show ?thesis by blast
qed



section \<open>Framed lines that do not parse\<close>


lemma error_prefix_only:
  assumes "prefix ''__METRICS_ERROR__'' t"
  shows "\<not> prefix ''__METRICS_EVENT__'' t" and "\<not> prefix ''__METRICS_COMPLETE__'' t"
proof -
  show "\<not> prefix ''__METRICS_EVENT__'' t"
  proof
    assume "prefix ''__METRICS_EVENT__'' t"
    with assms have "prefix ''__METRICS_ERROR__'' ''__METRICS_EVENT__''
        \<or> prefix ''__METRICS_EVENT__'' ''__METRICS_ERROR__''"
      by (rule prefix_same_cases[THEN disjE]) simp_all
    then show False by simp
  qed
  show "\<not> prefix ''__METRICS_COMPLETE__'' t"
  proof
    assume "prefix ''__METRICS_COMPLETE__'' t"
    with assms have "prefix ''__METRICS_ERROR__'' ''__METRICS_COMPLETE__''
        \<or> prefix ''__METRICS_COMPLETE__'' ''__METRICS_ERROR__''"
      by (rule prefix_same_cases[THEN disjE]) simp_all
    then show False by simp
  qed
qed

lemma complete_prefix_only:
  assumes "prefix ''__METRICS_COMPLETE__'' t"
  shows "\<not> prefix ''__METRICS_EVENT__'' t"
proof
  assume "prefix ''__METRICS_EVENT__'' t"
  with assms have "prefix ''__METRICS_COMPLETE__'' ''__METRICS_EVENT__''
      \<or> prefix ''__METRICS_EVENT__'' ''__METRICS_COMPLETE__''"
    by (rule prefix_same_cases[THEN disjE]) simp_all
  then show False by simp
qed

lemma on_end_resolves:
  "result st = Pending \<Longrightarrow> result (on_end cb None st) = Resolved (metricsData st)"
  by (simp add: on_end_def remove_temp_file_def settle_def Let_def)

lemma on_end_keeps:
  "result st = Rejected e \<Longrightarrow> result (on_end cb err st) = Rejected e"
  by (cases err) (simp_all add: on_end_def remove_temp_file_def settle_def Let_def)

text \<open>
  Claim C6 (amended). A line with one of the three prefixes whose payload does not parse
  is logged. For an event line and for the line of the final metrics that is all: nothing
  is delivered, \<^verbatim>\<open>metricsData\<close> keeps its value, and a run that was pending resolves with it
  when the process ends without error. For an error line the handler rejects the run
  with the parse error, and the end of the process does not change that.
\<close>

theorem bad_frame_handling:
  assumes bad: "payload_parse l = SyntaxError e"
    and pending: "result st = Pending"
  shows "(prefix ''__METRICS_EVENT__'' (line_text l) \<longrightarrow>
            on_message cb l st = st\<lparr>console := console st @ [''Error parsing metrics event:'']\<rparr>
            \<and> result (on_end cb None (on_message cb l st)) = Resolved (metricsData st))
     \<and> (prefix ''__METRICS_COMPLETE__'' (line_text l) \<longrightarrow>
            on_message cb l st = st\<lparr>console := console st @ [''Error parsing final metrics:'']\<rparr>
            \<and> result (on_end cb None (on_message cb l st)) = Resolved (metricsData st))
     \<and> (prefix ''__METRICS_ERROR__'' (line_text l) \<longrightarrow>
            on_message cb l st = st\<lparr>console := console st @ [''Error parsing error data:''],
                                    result := Rejected e\<rparr>
            \<and> result (on_end cb err (on_message cb l st)) = Rejected e)"
proof (intro conjI impI)
  assume p: "prefix ''__METRICS_EVENT__'' (line_text l)"
  with bad show m: "on_message cb l st = st\<lparr>console := console st @ [''Error parsing metrics event:'']\<rparr>"
    by (simp add: on_message_def on_event_line_def)
  from pending show "result (on_end cb None (on_message cb l st)) = Resolved (metricsData st)"
    unfolding m by (simp add: on_end_resolves)
next
  assume p: "prefix ''__METRICS_COMPLETE__'' (line_text l)"
  with bad complete_prefix_only[OF p]
  show m: "on_message cb l st = st\<lparr>console := console st @ [''Error parsing final metrics:'']\<rparr>"
    by (simp add: on_message_def on_complete_line_def)
  from pending show "result (on_end cb None (on_message cb l st)) = Resolved (metricsData st)"
    unfolding m by (simp add: on_end_resolves)
next
  assume p: "prefix ''__METRICS_ERROR__'' (line_text l)"
  with bad pending error_prefix_only[OF p]
  show m: "on_message cb l st = st\<lparr>console := console st @ [''Error parsing error data:''],
                                    result := Rejected e\<rparr>"
    by (simp add: on_message_def on_error_line_def settle_def)
  show "result (on_end cb err (on_message cb l st)) = Rejected e"
    unfolding m by (simp add: on_end_keeps)
qed

text \<open>
  Claim C6, as the code has it. The \<^verbatim>\<open>catch\<close> of the error branch calls \<^verbatim>\<open>reject(err)\<close>: a run
  whose only framed line is an error line that does not parse, and whose process then ends
  without error, is rejected.
\<close>

theorem bad_error_frame_counterexample:
  "result (py_execute True
      [\<lparr>line_text = ''__METRICS_ERROR__{oops'',
        payload_parse = SyntaxError ''Unexpected token o in JSON at position 1''\<rparr>] None)
   = Rejected ''Unexpected token o in JSON at position 1''"
  by (simp add: py_execute_def on_message_def on_error_line_def on_end_def py_run_init_def
      remove_temp_file_def settle_def Let_def)

theorem bad_frame_handling_witness:
  "payload_parse \<lparr>line_text = ''__METRICS_EVENT__{oops'',
        payload_parse = SyntaxError ''Unexpected token o in JSON at position 1''\<rparr>
     = SyntaxError ''Unexpected token o in JSON at position 1''
   \<and> result py_run_init = Pending
   \<and> prefix ''__METRICS_EVENT__'' ''__METRICS_EVENT__{oops''
   \<and> on_message True \<lparr>line_text = ''__METRICS_EVENT__{oops'',
        payload_parse = SyntaxError ''Unexpected token o in JSON at position 1''\<rparr> py_run_init
      = py_run_init\<lparr>console := [''Error parsing metrics event:'']\<rparr>
   \<and> result (on_end True None (on_message True \<lparr>line_text = ''__METRICS_EVENT__{oops'',
        payload_parse = SyntaxError ''Unexpected token o in JSON at position 1''\<rparr> py_run_init))
      = Resolved (metricsData py_run_init)"
proof -
  let ?l = "\<lparr>line_text = ''__METRICS_EVENT__{oops'',
        payload_parse = SyntaxError ''Unexpected token o in JSON at position 1''\<rparr>"
  have a: "payload_parse ?l = SyntaxError ''Unexpected token o in JSON at position 1''" by simp
  have b: "result py_run_init = Pending" by (simp add: py_run_init_def)
  have c: "prefix ''__METRICS_EVENT__'' (line_text ?l)" by simp
  from bad_frame_handling[OF a b, of True None] c
  have "on_message True ?l py_run_init
          = py_run_init\<lparr>console := console py_run_init @ [''Error parsing metrics event:'']\<rparr>"
    and "result (on_end True None (on_message True ?l py_run_init)) = Resolved (metricsData py_run_init)"
    by blast+
  with a b c show ?thesis by (simp add: py_run_init_def)
qed


section \<open>Requests with an id in flight\<close>








end
